theory Spec2Isabelle
  imports Main
begin

section \<open>The chat WebSocket server and its rate limiter\<close>

text \<open>
  A shallow embedding of the real-time chat core of the API server: the WebSocket
  handlers (\<open>setupWebSocket\<close>, \<open>handleMessage\<close>, \<open>handleJoinSession\<close>,
  \<open>handleSendMessage\<close>, \<open>leaveSession\<close>, \<open>broadcastToSession\<close>, \<open>sendError\<close>),
  the sliding-window limiter \<open>checkRateLimit\<close> of \<open>lib/redis.ts\<close> and
  \<open>getAIResponse\<close> of \<open>lib/ai.ts\<close>.

  Modelling decisions:
  \<^item> A \<open>WebSocket\<close> object is its identity, a natural number; the module-level maps
    \<open>clients\<close> and \<open>sessionClients\<close>, the two Prisma tables, the Redis store and the
    sequence of outbound effects make up one \<open>world\<close> record that every handler takes
    and returns.
  \<^item> A JavaScript \<open>Set\<close> iterates in insertion order: it is a list without duplicates
    (\<open>set_add\<close>, \<open>removeAll\<close>).
  \<^item> \<open>handleJoinSession\<close>, \<open>handleSendMessage\<close> and \<open>on_message\<close> are handlers that run to
    completion with no other event in between. The section on suspended handlers
    splits the join at its session lookup and the send at its generator call, and
    \<open>istep\<close> interleaves other events there.
  \<^item> What the collaborators answer is an input of the handler, the record \<open>io\<close>: the
    clock readings, the calls that reject (\<open>failing\<close>) and the outcome of the HTTP call
    to the text generator. A rejected \<open>await\<close> is the outcome \<open>Thrown\<close>, which the
    \<open>try/catch\<close> of the \<open>message\<close> listener turns into an error envelope.
  \<^item> Strings are \<open>string\<close>; \<open>length\<close> stands for JavaScript's \<open>.length\<close>, so the model
    covers the strings whose code units are below 256.
\<close>

subsection \<open>JSON payloads and the zod schemas\<close>

datatype json =
    JNull
  | JBool bool
  | JNum int
  | JStr string
  | JArr "json list"
  | JObj "(string \<times> json) list"

definition is_hex :: "char \<Rightarrow> bool" where
  "is_hex ch = (ch \<in> set ''0123456789abcdefABCDEF'')"

text \<open>
  \<open>z.string().uuid()\<close>: five groups of 8, 4, 4, 4 and 12 hexadecimal digits separated
  by hyphens (the shape zod's pattern accepts; zod itself is a third-party library).
\<close>

definition is_uuid :: "string \<Rightarrow> bool" where
  "is_uuid s =
     (length s = 36 \<and>
      list_all is_hex (take 8 s) \<and> s ! 8 = CHR ''-'' \<and>
      list_all is_hex (take 4 (drop 9 s)) \<and> s ! 13 = CHR ''-'' \<and>
      list_all is_hex (take 4 (drop 14 s)) \<and> s ! 18 = CHR ''-'' \<and>
      list_all is_hex (take 4 (drop 19 s)) \<and> s ! 23 = CHR ''-'' \<and>
      list_all is_hex (drop 24 s))"

record join_payload =
  jp_sessionId :: string
  jp_isAdmin :: "bool option"
  jp_adminKey :: "string option"

text \<open>An \<open>.optional()\<close> field: absent is accepted as undefined, present must have the type.\<close>

definition optional_boolean :: "json option \<Rightarrow> bool option option" where
  "optional_boolean v =
     (case v of None \<Rightarrow> Some None | Some (JBool b) \<Rightarrow> Some (Some b) | Some _ \<Rightarrow> None)"

definition optional_string :: "json option \<Rightarrow> string option option" where
  "optional_string v =
     (case v of None \<Rightarrow> Some None | Some (JStr s) \<Rightarrow> Some (Some s) | Some _ \<Rightarrow> None)"

text \<open>
  \<open>WsJoinSessionSchema.safeParse\<close>: \<open>None\<close> is \<open>success: false\<close>, \<open>Some p\<close> is
  \<open>parsed.data\<close>. The payload of an envelope may be missing (\<open>undefined\<close>).
\<close>

definition WsJoinSessionSchema :: "json option \<Rightarrow> join_payload option" where
  "WsJoinSessionSchema payload =
     (case payload of
        Some (JObj kvs) \<Rightarrow>
          (case map_of kvs ''sessionId'' of
             Some (JStr s) \<Rightarrow>
               (if is_uuid s then
                  (case optional_boolean (map_of kvs ''isAdmin'') of
                     None \<Rightarrow> None
                   | Some adm \<Rightarrow>
                       (case optional_string (map_of kvs ''adminKey'') of
                          None \<Rightarrow> None
                        | Some k \<Rightarrow>
                            Some \<lparr>jp_sessionId = s, jp_isAdmin = adm, jp_adminKey = k\<rparr>))
                else None)
           | _ \<Rightarrow> None)
      | _ \<Rightarrow> None)"

text \<open>\<open>WsSendMessageSchema.safeParse\<close>: \<open>content\<close> is a string of 1 to 4000 units.\<close>

definition WsSendMessageSchema :: "json option \<Rightarrow> string option" where
  "WsSendMessageSchema payload =
     (case payload of
        Some (JObj kvs) \<Rightarrow>
          (case map_of kvs ''content'' of
             Some (JStr s) \<Rightarrow> (if 1 \<le> length s \<and> length s \<le> 4000 then Some s else None)
           | _ \<Rightarrow> None)
      | _ \<Rightarrow> None)"

subsection \<open>Data model\<close>

type_synonym socket = nat

datatype ready_state = WS_CONNECTING | WS_OPEN | WS_CLOSING | WS_CLOSED

datatype session_status = ACTIVE | CLOSED

datatype message_role = USER | ASSISTANT | SYSTEM

record chat_session =
  s_id :: string
  s_visitorId :: string
  s_visitorName :: "string option"
  s_status :: session_status
  s_metadata :: "json option"
  s_createdAt :: int
  s_updatedAt :: int

text \<open>A row of the message table; its generated, opaque \<open>id\<close> column is left out.\<close>

record chat_message =
  m_sessionId :: string
  m_role :: message_role
  m_content :: string
  m_createdAt :: int

text \<open>\<open>interface ClientState\<close>.\<close>

record client_state =
  ws :: socket
  sessionId :: "string option"
  isAdmin :: bool
  ip :: string

text \<open>The envelopes the server writes, one constructor per \<open>type\<close>.\<close>

datatype envelope =
    SESSION_JOINED chat_session "chat_message list"
  | MESSAGE_RECEIVED chat_message
  | AI_RESPONSE chat_message
  | TYPING_START bool
  | TYPING_STOP bool
  | ERROR string string

text \<open>
  What a handler does to the outside, in order: \<open>Send c e\<close> is one \<open>ws.send\<close> on the
  caller's own socket; \<open>Broadcast sid e cs\<close> is one call of \<open>broadcastToSession\<close> for
  session \<open>sid\<close> together with the sockets \<open>cs\<close> it wrote \<open>e\<close> to; \<open>Generate h\<close> is one
  call of \<open>getAIResponse\<close> with the history \<open>h\<close> of (role, content) pairs.
\<close>

datatype effect =
    Send socket envelope
  | Broadcast string envelope "socket list"
  | Generate "(string \<times> string) list"

text \<open>The awaited calls that can reject.\<close>

datatype call =
    RedisExec
  | FindSession
  | CreateMessage
  | FindHistory
  | CreateAIMessage
  | UpdateSession
  | FindMessages

text \<open>The outcome of the \<open>fetch\<close> in \<open>getAIResponse\<close>.\<close>

datatype fetch_outcome =
    FetchRejected
  | HttpNotOk string
  | BodyNotJson
  | Body "string option"

record io =
  now :: int
  created_at :: int
  ai_created_at :: int
  updated_at :: int
  failing :: "call set"
  fetch :: fetch_outcome

record world =
  clients :: "socket \<Rightarrow> client_state option"
  sessionClients :: "string \<Rightarrow> socket list option"
  readyState :: "socket \<Rightarrow> ready_state"
  next_socket :: nat
  chatSession :: "string \<Rightarrow> chat_session option"
  chatMessage :: "chat_message list"
  redis :: "string \<Rightarrow> (int list \<times> int) option"
  trace :: "effect list"

datatype outcome = Returned | Thrown

subsection \<open>Sending\<close>

definition emit :: "effect \<Rightarrow> world \<Rightarrow> world" where
  "emit e w = w\<lparr>trace := trace w @ [e]\<rparr>"

text \<open>\<open>if (state.sessionId)\<close>: \<open>null\<close> and the empty string are falsy.\<close>

definition truthy :: "string option \<Rightarrow> bool" where
  "truthy s = (case s of None \<Rightarrow> False | Some x \<Rightarrow> x \<noteq> [])"

definition sendError :: "socket \<Rightarrow> string \<Rightarrow> string \<Rightarrow> world \<Rightarrow> world" where
  "sendError c code msg w =
     (if readyState w c = WS_OPEN then emit (Send c (ERROR code msg)) w else w)"

text \<open>
  A bare \<open>ws.send\<close> (the \<open>SESSION_JOINED\<close> reply): the library drops the data of a
  socket that is no longer open.
\<close>

definition ws_send :: "socket \<Rightarrow> envelope \<Rightarrow> world \<Rightarrow> world" where
  "ws_send c e w = (if readyState w c = WS_OPEN then emit (Send c e) w else w)"

definition recipients :: "world \<Rightarrow> string \<Rightarrow> socket option \<Rightarrow> socket list" where
  "recipients w sid exclude =
     (case sessionClients w sid of
        None \<Rightarrow> []
      | Some cs \<Rightarrow> filter (\<lambda>client. Some client \<noteq> exclude \<and> readyState w client = WS_OPEN) cs)"

definition broadcastToSession :: "string \<Rightarrow> envelope \<Rightarrow> socket option \<Rightarrow> world \<Rightarrow> world" where
  "broadcastToSession sid e exclude w = emit (Broadcast sid e (recipients w sid exclude)) w"

subsection \<open>The connection registry\<close>

definition set_add :: "'a \<Rightarrow> 'a list \<Rightarrow> 'a list" where
  "set_add x xs = (if x \<in> set xs then xs else xs @ [x])"

definition leaveSession :: "socket \<Rightarrow> string \<Rightarrow> world \<Rightarrow> world" where
  "leaveSession c sid w =
     (case sessionClients w sid of
        None \<Rightarrow> w
      | Some cs \<Rightarrow>
          (let cs' = removeAll c cs
           in if cs' = [] then w\<lparr>sessionClients := (sessionClients w)(sid := None)\<rparr>
              else w\<lparr>sessionClients := (sessionClients w)(sid \<mapsto> cs')\<rparr>))"

definition joinSet :: "socket \<Rightarrow> string \<Rightarrow> world \<Rightarrow> world" where
  "joinSet c sid w =
     (let cs = (case sessionClients w sid of None \<Rightarrow> [] | Some cs \<Rightarrow> cs)
      in w\<lparr>sessionClients := (sessionClients w)(sid \<mapsto> set_add c cs)\<rparr>)"

definition set_state :: "socket \<Rightarrow> client_state \<Rightarrow> world \<Rightarrow> world" where
  "set_state c st w = w\<lparr>clients := (clients w)(c \<mapsto> st)\<rparr>"

subsection \<open>The rate limiter (\<open>checkRateLimit\<close>)\<close>

record rate_limit_result =
  allowed :: bool
  remaining :: int
  resetIn :: int

text \<open>
  The Redis value of a key is the sorted set's scores (each member is unique through its
  random suffix, so the scores form a list) and the time at which the key expires. The
  store and the server read one clock, in milliseconds.
\<close>

definition zset_at :: "world \<Rightarrow> string \<Rightarrow> int \<Rightarrow> int list" where
  "zset_at w redisKey t =
     (case redis w redisKey of
        None \<Rightarrow> []
      | Some (scores, expires) \<Rightarrow> if expires \<le> t then [] else scores)"

text \<open>\<open>ZREMRANGEBYSCORE key -inf windowStart\<close> removes the scores up to \<open>windowStart\<close>.\<close>

definition zremrangebyscore :: "int \<Rightarrow> int list \<Rightarrow> int list" where
  "zremrangebyscore windowStart scores = filter (\<lambda>s. \<not> s \<le> windowStart) scores"

text \<open>
  The four commands of the transaction, in order: purge, count, add, expire. A rejected
  \<open>exec\<close> (or its null result) throws: the first component is \<open>None\<close>.
\<close>

definition checkRateLimit ::
    "io \<Rightarrow> string \<Rightarrow> int \<Rightarrow> int \<Rightarrow> world \<Rightarrow> rate_limit_result option \<times> world" where
  "checkRateLimit i key limit windowSeconds w =
     (let windowStart = now i - windowSeconds * 1000;
          redisKey = ''ratelimit:'' @ key
      in if RedisExec \<in> failing i then (None, w)
         else
           (let kept = zremrangebyscore windowStart (zset_at w redisKey (now i));
                count = int (length kept);
                w' = w\<lparr>redis := (redis w)(redisKey \<mapsto>
                        (kept @ [now i], now i + windowSeconds * 1000))\<rparr>
            in (Some \<lparr>allowed = count < limit,
                      remaining = max 0 (limit - count - 1),
                      resetIn = windowSeconds\<rparr>, w')))"

subsection \<open>The text generator (\<open>getAIResponse\<close>)\<close>

record ai_response =
  ai_content :: string
  ai_error :: "string option"

text \<open>
  Every failure of the HTTP call is caught inside the function and becomes an empty
  \<open>content\<close>; \<open>Body c\<close> is \<open>data.choices?.[0]?.message?.content\<close>.
\<close>

fun getAIResponse :: "fetch_outcome \<Rightarrow> ai_response" where
  "getAIResponse (HttpNotOk body) =
     \<lparr>ai_content = [], ai_error = Some ''Failed to get AI response''\<rparr>"
| "getAIResponse (Body None) = \<lparr>ai_content = [], ai_error = Some ''Empty AI response''\<rparr>"
| "getAIResponse (Body (Some c)) =
     (if c = [] then \<lparr>ai_content = [], ai_error = Some ''Empty AI response''\<rparr>
      else \<lparr>ai_content = c, ai_error = None\<rparr>)"
| "getAIResponse FetchRejected =
     \<lparr>ai_content = [], ai_error = Some ''AI service unavailable''\<rparr>"
| "getAIResponse BodyNotJson =
     \<lparr>ai_content = [], ai_error = Some ''AI service unavailable''\<rparr>"

subsection \<open>The Prisma tables\<close>

text \<open>
  \<open>prisma.chatMessage.findMany({ where: { sessionId }, orderBy: { createdAt: "asc" },
  take })\<close>: the rows of the session in ascending \<open>createdAt\<close>, then the first \<open>take\<close>
  of them.
\<close>

definition findMany :: "string \<Rightarrow> nat option \<Rightarrow> world \<Rightarrow> chat_message list" where
  "findMany sid tk w =
     (let rows = sort_key m_createdAt (filter (\<lambda>m. m_sessionId m = sid) (chatMessage w))
      in case tk of None \<Rightarrow> rows | Some n \<Rightarrow> take n rows)"

definition create_message ::
    "string \<Rightarrow> message_role \<Rightarrow> string \<Rightarrow> int \<Rightarrow> world \<Rightarrow> chat_message \<times> world" where
  "create_message sid r c t w =
     (let m = \<lparr>m_sessionId = sid, m_role = r, m_content = c, m_createdAt = t\<rparr>
      in (m, w\<lparr>chatMessage := chatMessage w @ [m]\<rparr>))"

text \<open>\<open>String.toLowerCase\<close> on the role column.\<close>

fun role_lower :: "message_role \<Rightarrow> string" where
  "role_lower USER = ''user''"
| "role_lower ASSISTANT = ''assistant''"
| "role_lower SYSTEM = ''system''"

subsection \<open>\<open>handleSendMessage\<close>\<close>

text \<open>The block \<open>if (!state.isAdmin) { ... }\<close>: history, typing, generator, reply.\<close>

definition respond_with_ai :: "io \<Rightarrow> string \<Rightarrow> world \<Rightarrow> outcome \<times> world" where
  "respond_with_ai i sid w =
     (if FindHistory \<in> failing i then (Thrown, w)
      else
        (let history = findMany sid (Some 20) w;
             w1 = broadcastToSession sid (TYPING_START False) None w;
             w2 = emit (Generate (map (\<lambda>m. (role_lower (m_role m), m_content m)) history)) w1;
             aiResult = getAIResponse (fetch i);
             w3 = broadcastToSession sid (TYPING_STOP False) None w2
         in if ai_content aiResult \<noteq> [] then
              (if CreateAIMessage \<in> failing i then (Thrown, w3)
               else
                 (case create_message sid ASSISTANT (ai_content aiResult) (ai_created_at i) w3 of
                    (aiMessage, w4) \<Rightarrow>
                      (Returned, broadcastToSession sid (AI_RESPONSE aiMessage) None w4)))
            else (Returned, w3)))"

text \<open>The final \<open>prisma.chatSession.update\<close>; updating a missing row rejects.\<close>

definition update_timestamp :: "io \<Rightarrow> string \<Rightarrow> world \<Rightarrow> outcome \<times> world" where
  "update_timestamp i sid w =
     (if UpdateSession \<in> failing i then (Thrown, w)
      else
        (case chatSession w sid of
           None \<Rightarrow> (Thrown, w)
         | Some s \<Rightarrow>
             (Returned, w\<lparr>chatSession := (chatSession w)(sid \<mapsto> s\<lparr>s_updatedAt := updated_at i\<rparr>)\<rparr>)))"

text \<open>From \<open>// Save message\<close> to the end of the function.\<close>

definition save_and_broadcast ::
    "io \<Rightarrow> client_state \<Rightarrow> string \<Rightarrow> string \<Rightarrow> world \<Rightarrow> outcome \<times> world" where
  "save_and_broadcast i st sid content w =
     (let role = (if isAdmin st then ASSISTANT else USER);
          messageContent = (if isAdmin st then ''[Marin]: '' @ content else content)
      in if CreateMessage \<in> failing i then (Thrown, w)
         else
           (case create_message sid role messageContent (created_at i) w of
              (message, w1) \<Rightarrow>
                (let w2 = broadcastToSession sid (MESSAGE_RECEIVED message) None w1
                 in case (if \<not> isAdmin st then respond_with_ai i sid w2 else (Returned, w2)) of
                      (Thrown, w3) \<Rightarrow> (Thrown, w3)
                    | (Returned, w3) \<Rightarrow> update_timestamp i sid w3)))"

definition handleSendMessage ::
    "io \<Rightarrow> socket \<Rightarrow> client_state \<Rightarrow> json option \<Rightarrow> world \<Rightarrow> outcome \<times> world" where
  "handleSendMessage i c st payload w =
     (case sessionId st of
        None \<Rightarrow> (Returned, sendError c ''NOT_IN_SESSION'' ''You must join a session first'' w)
      | Some sid \<Rightarrow>
          if sid = [] then
            (Returned, sendError c ''NOT_IN_SESSION'' ''You must join a session first'' w)
          else
            (case WsSendMessageSchema payload of
               None \<Rightarrow> (Returned, sendError c ''VALIDATION_ERROR'' ''Invalid message payload'' w)
             | Some content \<Rightarrow>
                 (case checkRateLimit i (''ws-message:'' @ ip st) 30 60 w of
                    (None, w1) \<Rightarrow> (Thrown, w1)
                  | (Some rateResult, w1) \<Rightarrow>
                      if \<not> allowed rateResult then
                        (Returned,
                         sendError c ''RATE_LIMITED'' ''Too many messages. Please slow down.'' w1)
                      else if FindSession \<in> failing i then (Thrown, w1)
                      else
                        (case chatSession w1 sid of
                           None \<Rightarrow>
                             (Returned,
                              sendError c ''SESSION_CLOSED'' ''This session has been closed'' w1)
                         | Some session \<Rightarrow>
                             if s_status session \<noteq> ACTIVE then
                               (Returned,
                                sendError c ''SESSION_CLOSED'' ''This session has been closed'' w1)
                             else save_and_broadcast i st sid content w1))))"

subsection \<open>\<open>handleJoinSession\<close>\<close>

text \<open>\<open>!adminKey || adminKey !== env.ADMIN_API_KEY\<close> is the negation of this.\<close>

definition admin_key_ok :: "string \<Rightarrow> string option \<Rightarrow> bool" where
  "admin_key_ok ADMIN_API_KEY adminKey =
     (case adminKey of None \<Rightarrow> False | Some k \<Rightarrow> k \<noteq> [] \<and> k = ADMIN_API_KEY)"

text \<open>From \<open>// Verify session exists\<close> to the end; \<open>st\<close> is the state object as it is then.\<close>

definition lookup_and_join ::
    "io \<Rightarrow> socket \<Rightarrow> client_state \<Rightarrow> string \<Rightarrow> world \<Rightarrow> outcome \<times> world" where
  "lookup_and_join i c st sid w =
     (if FindSession \<in> failing i then (Thrown, w)
      else
        (case chatSession w sid of
           None \<Rightarrow> (Returned, sendError c ''SESSION_NOT_FOUND'' ''Chat session not found'' w)
         | Some session \<Rightarrow>
             (let w1 = (case sessionId st of
                          None \<Rightarrow> w
                        | Some old \<Rightarrow> if old = [] then w else leaveSession c old w);
                  w2 = joinSet c sid (set_state c (st\<lparr>sessionId := Some sid\<rparr>) w1)
              in if FindMessages \<in> failing i then (Thrown, w2)
                 else (Returned, ws_send c (SESSION_JOINED session (findMany sid None w2)) w2))))"

definition handleJoinSession ::
    "string \<Rightarrow> io \<Rightarrow> socket \<Rightarrow> client_state \<Rightarrow> json option \<Rightarrow> world \<Rightarrow> outcome \<times> world" where
  "handleJoinSession ADMIN_API_KEY i c st payload w =
     (case WsJoinSessionSchema payload of
        None \<Rightarrow> (Returned, sendError c ''VALIDATION_ERROR'' ''Invalid join session payload'' w)
      | Some p \<Rightarrow>
          if jp_isAdmin p = Some True then
            (if \<not> admin_key_ok ADMIN_API_KEY (jp_adminKey p) then
               (Returned, sendError c ''UNAUTHORIZED'' ''Invalid admin key'' w)
             else
               lookup_and_join i c (st\<lparr>isAdmin := True\<rparr>) (jp_sessionId p)
                 (set_state c (st\<lparr>isAdmin := True\<rparr>) w))
          else lookup_and_join i c st (jp_sessionId p) w)"

subsection \<open>\<open>handleMessage\<close> and the listeners of \<open>setupWebSocket\<close>\<close>

text \<open>
  An inbound envelope after \<open>JSON.parse\<close>, as \<open>interface WsMessage\<close> types it: \<open>type\<close>
  is a string, the payload is any JSON value or absent.
\<close>

record ws_message =
  mtype :: string
  payload :: "json option"

definition handleMessage ::
    "string \<Rightarrow> io \<Rightarrow> socket \<Rightarrow> ws_message \<Rightarrow> world \<Rightarrow> outcome \<times> world" where
  "handleMessage ADMIN_API_KEY i c message w =
     (case clients w c of
        None \<Rightarrow> (Returned, w)
      | Some st \<Rightarrow>
          if mtype message = ''JOIN_SESSION'' then
            handleJoinSession ADMIN_API_KEY i c st (payload message) w
          else if mtype message = ''LEAVE_SESSION'' then
            (case sessionId st of
               None \<Rightarrow> (Returned, w)
             | Some sid \<Rightarrow>
                 if sid = [] then (Returned, w)
                 else (Returned, set_state c (st\<lparr>sessionId := None\<rparr>) (leaveSession c sid w)))
          else if mtype message = ''SEND_MESSAGE'' then
            handleSendMessage i c st (payload message) w
          else if mtype message = ''TYPING_START'' \<or> mtype message = ''TYPING_STOP'' then
            (case sessionId st of
               None \<Rightarrow> (Returned, w)
             | Some sid \<Rightarrow>
                 if sid = [] then (Returned, w)
                 else
                   (Returned,
                    broadcastToSession sid
                      (if mtype message = ''TYPING_START'' then TYPING_START (isAdmin st)
                       else TYPING_STOP (isAdmin st))
                      (Some c) w))
          else
            (Returned,
             sendError c ''UNKNOWN_MESSAGE_TYPE'' (''Unknown message type: '' @ mtype message) w))"

text \<open>
  \<open>ws.on("message", ...)\<close>: \<open>None\<close> is data that \<open>JSON.parse\<close> rejects. Whatever is
  thrown inside the \<open>try\<close> is answered with \<open>INVALID_MESSAGE\<close>.
\<close>

definition on_message ::
    "string \<Rightarrow> io \<Rightarrow> socket \<Rightarrow> ws_message option \<Rightarrow> world \<Rightarrow> world" where
  "on_message ADMIN_API_KEY i c data w =
     (case data of
        None \<Rightarrow> sendError c ''INVALID_MESSAGE'' ''Failed to process message'' w
      | Some message \<Rightarrow>
          (case handleMessage ADMIN_API_KEY i c message w of
             (Thrown, w') \<Rightarrow> sendError c ''INVALID_MESSAGE'' ''Failed to process message'' w'
           | (Returned, w') \<Rightarrow> w'))"

text \<open>
  \<open>(req.headers["x-forwarded-for"] as string)?.split(",")[0] || req.socket.remoteAddress
  || "unknown"\<close>.
\<close>

definition client_ip :: "string option \<Rightarrow> string option \<Rightarrow> string" where
  "client_ip forwarded remoteAddress =
     (let first = (case forwarded of None \<Rightarrow> [] | Some h \<Rightarrow> takeWhile (\<lambda>ch. ch \<noteq> CHR '','') h);
          remote = (case remoteAddress of None \<Rightarrow> [] | Some a \<Rightarrow> a)
      in if first \<noteq> [] then first else if remote \<noteq> [] then remote else ''unknown'')"

text \<open>\<open>wss.on("connection", ...)\<close>: a new socket object, open, with a fresh state.\<close>

definition on_connection :: "string option \<Rightarrow> string option \<Rightarrow> world \<Rightarrow> world" where
  "on_connection forwarded remoteAddress w =
     (let c = next_socket w
      in w\<lparr>clients := (clients w)(c \<mapsto>
              \<lparr>ws = c, sessionId = None, isAdmin = False, ip = client_ip forwarded remoteAddress\<rparr>),
            readyState := (readyState w)(c := WS_OPEN),
            next_socket := Suc c\<rparr>)"

text \<open>\<open>ws.on("close", ...)\<close>; the socket is closed when the listener runs.\<close>

definition on_close :: "socket \<Rightarrow> world \<Rightarrow> world" where
  "on_close c w =
     (let w0 = w\<lparr>readyState := (readyState w)(c := WS_CLOSED)\<rparr>;
          w1 = (case clients w0 c of
                  None \<Rightarrow> w0
                | Some st \<Rightarrow>
                    (case sessionId st of
                       None \<Rightarrow> w0
                     | Some sid \<Rightarrow> if sid = [] then w0 else leaveSession c sid w0))
      in w1\<lparr>clients := (clients w1)(c := None)\<rparr>)"

subsection \<open>Runs of the server\<close>

text \<open>
  What can happen to the server: a client connects, a frame arrives on a socket, a socket
  closes, a peer starts closing (the socket stops being writable before its \<open>close\<close>
  event), and the other writers of the database (the HTTP routes) change the tables.
\<close>

datatype event =
    Connection "string option" "string option"
  | Message socket io "ws_message option"
  | Close socket
  | PeerClosing socket
  | Storage "string \<Rightarrow> chat_session option" "chat_message list"

fun step :: "string \<Rightarrow> world \<Rightarrow> event \<Rightarrow> world" where
  "step k w (Connection forwarded remoteAddress) = on_connection forwarded remoteAddress w"
| "step k w (Message c i data) = on_message k i c data w"
| "step k w (Close c) = on_close c w"
| "step k w (PeerClosing c) =
     (if readyState w c = WS_OPEN then w\<lparr>readyState := (readyState w)(c := WS_CLOSING)\<rparr> else w)"
| "step k w (Storage sessions messages) = w\<lparr>chatSession := sessions, chatMessage := messages\<rparr>"

definition run :: "string \<Rightarrow> world \<Rightarrow> event list \<Rightarrow> world" where
  "run k w evs = foldl (step k) w evs"

text \<open>The server right after start: no client, no membership, empty tables and store.\<close>

definition init :: world where
  "init = \<lparr>clients = (\<lambda>c. None), sessionClients = (\<lambda>s. None),
           readyState = (\<lambda>c. WS_CLOSED), next_socket = 0,
           chatSession = (\<lambda>s. None), chatMessage = [],
           redis = (\<lambda>k. None), trace = []\<rparr>"

subsection \<open>Handlers suspended at an await\<close>

text \<open>
  The \<open>message\<close> listener is \<open>async\<close> and nothing serialises it: while one handler awaits,
  the events of the same and of other sockets are handled. \<open>on_message\<close> above is a
  handler that nothing interrupts. Here two awaits are suspension points: the session
  lookup of \<open>handleJoinSession\<close> and the generator call of \<open>handleSendMessage\<close>. The
  other awaits of a handler are passed with no event in between, so every run of this
  model is a run of the server.

  A suspended handler keeps the \<open>state\<close> object it read from \<open>clients\<close> and reads its fields
  again after the await. While the socket is registered that object is the entry of
  \<open>clients\<close>; the \<open>close\<close> listener deletes the entry but not the object, which \<open>held\<close>
  keeps for the handlers that still refer to it.
\<close>

datatype pending =
    JoinLookup socket string
  | GeneratorCall socket

record server =
  srv :: world
  held :: "socket \<Rightarrow> client_state option"
  waiting :: "pending list"

definition state_object :: "server \<Rightarrow> socket \<Rightarrow> client_state option" where
  "state_object s c = (case clients (srv s) c of Some st \<Rightarrow> Some st | None \<Rightarrow> held s c)"

definition write_state :: "socket \<Rightarrow> client_state \<Rightarrow> server \<Rightarrow> server" where
  "write_state c st s =
     (case clients (srv s) c of
        Some old \<Rightarrow> s\<lparr>srv := set_state c st (srv s)\<rparr>
      | None \<Rightarrow> s\<lparr>held := (held s)(c \<mapsto> st)\<rparr>)"

text \<open>
  \<open>broadcastToSession(state.sessionId, ...)\<close> when the id may be \<open>null\<close> by then:
  \<open>sessionClients.get(null)\<close> is undefined and the function returns.
\<close>

definition broadcast_to :: "string option \<Rightarrow> envelope \<Rightarrow> world \<Rightarrow> world" where
  "broadcast_to target e w =
     (case target of None \<Rightarrow> w | Some sid \<Rightarrow> broadcastToSession sid e None w)"

text \<open>
  \<open>handleJoinSession\<close> up to \<open>await prisma.chatSession.findUnique\<close>: \<open>Some sid\<close> is the
  handler suspended at the lookup of \<open>sid\<close>, \<open>None\<close> the handler that has returned.
\<close>

definition join_begin ::
    "string \<Rightarrow> socket \<Rightarrow> client_state \<Rightarrow> json option \<Rightarrow> world \<Rightarrow> string option \<times> world" where
  "join_begin ADMIN_API_KEY c st body w =
     (case WsJoinSessionSchema body of
        None \<Rightarrow> (None, sendError c ''VALIDATION_ERROR'' ''Invalid join session payload'' w)
      | Some p \<Rightarrow>
          if jp_isAdmin p = Some True then
            (if \<not> admin_key_ok ADMIN_API_KEY (jp_adminKey p) then
               (None, sendError c ''UNAUTHORIZED'' ''Invalid admin key'' w)
             else (Some (jp_sessionId p), set_state c (st\<lparr>isAdmin := True\<rparr>) w))
          else (Some (jp_sessionId p), w))"

text \<open>
  The rest of \<open>handleJoinSession\<close> once the lookup has answered, on the state object as
  it is then; what is thrown goes to the listener's \<open>catch\<close>.
\<close>

definition join_resume :: "io \<Rightarrow> socket \<Rightarrow> string \<Rightarrow> server \<Rightarrow> server" where
  "join_resume i c sid s =
     (if FindSession \<in> failing i then
        s\<lparr>srv := sendError c ''INVALID_MESSAGE'' ''Failed to process message'' (srv s)\<rparr>
      else
        (case chatSession (srv s) sid of
           None \<Rightarrow> s\<lparr>srv := sendError c ''SESSION_NOT_FOUND'' ''Chat session not found'' (srv s)\<rparr>
         | Some session \<Rightarrow>
             (case state_object s c of
                None \<Rightarrow> s
              | Some st \<Rightarrow>
                  (let s1 = (case sessionId st of
                               None \<Rightarrow> s
                             | Some old \<Rightarrow>
                                 if old = [] then s else s\<lparr>srv := leaveSession c old (srv s)\<rparr>);
                       s2 = write_state c (st\<lparr>sessionId := Some sid\<rparr>) s1;
                       s3 = s2\<lparr>srv := joinSet c sid (srv s2)\<rparr>
                   in if FindMessages \<in> failing i then
                        s3\<lparr>srv := sendError c ''INVALID_MESSAGE'' ''Failed to process message''
                                    (srv s3)\<rparr>
                      else
                        s3\<lparr>srv := ws_send c
                                    (SESSION_JOINED session (findMany sid None (srv s3)))
                                    (srv s3)\<rparr>))))"

text \<open>
  \<open>handleSendMessage\<close> up to \<open>await getAIResponse\<close>: the first component is \<open>None\<close> when
  the handler is suspended at the generator call, and its outcome when it has finished
  before (an error reply, an admin's message, something thrown).
\<close>

definition save_until_generator ::
    "io \<Rightarrow> client_state \<Rightarrow> string \<Rightarrow> string \<Rightarrow> world \<Rightarrow> outcome option \<times> world" where
  "save_until_generator i st sid content w =
     (let role = (if isAdmin st then ASSISTANT else USER);
          messageContent = (if isAdmin st then ''[Marin]: '' @ content else content)
      in if CreateMessage \<in> failing i then (Some Thrown, w)
         else
           (case create_message sid role messageContent (created_at i) w of
              (message, w1) \<Rightarrow>
                (let w2 = broadcastToSession sid (MESSAGE_RECEIVED message) None w1
                 in if \<not> isAdmin st then
                      (if FindHistory \<in> failing i then (Some Thrown, w2)
                       else
                         (let history = findMany sid (Some 20) w2;
                              w3 = broadcastToSession sid (TYPING_START False) None w2
                          in (None,
                              emit (Generate
                                (map (\<lambda>m. (role_lower (m_role m), m_content m)) history)) w3)))
                    else
                      (case update_timestamp i sid w2 of (out, w3) \<Rightarrow> (Some out, w3)))))"

definition send_begin ::
    "io \<Rightarrow> socket \<Rightarrow> client_state \<Rightarrow> json option \<Rightarrow> world \<Rightarrow> outcome option \<times> world" where
  "send_begin i c st body w =
     (case sessionId st of
        None \<Rightarrow> (Some Returned, sendError c ''NOT_IN_SESSION'' ''You must join a session first'' w)
      | Some sid \<Rightarrow>
          if sid = [] then
            (Some Returned, sendError c ''NOT_IN_SESSION'' ''You must join a session first'' w)
          else
            (case WsSendMessageSchema body of
               None \<Rightarrow>
                 (Some Returned, sendError c ''VALIDATION_ERROR'' ''Invalid message payload'' w)
             | Some content \<Rightarrow>
                 (case checkRateLimit i (''ws-message:'' @ ip st) 30 60 w of
                    (None, w1) \<Rightarrow> (Some Thrown, w1)
                  | (Some rateResult, w1) \<Rightarrow>
                      if \<not> allowed rateResult then
                        (Some Returned,
                         sendError c ''RATE_LIMITED'' ''Too many messages. Please slow down.'' w1)
                      else if FindSession \<in> failing i then (Some Thrown, w1)
                      else
                        (case chatSession w1 sid of
                           None \<Rightarrow>
                             (Some Returned,
                              sendError c ''SESSION_CLOSED'' ''This session has been closed'' w1)
                         | Some session \<Rightarrow>
                             if s_status session \<noteq> ACTIVE then
                               (Some Returned,
                                sendError c ''SESSION_CLOSED'' ''This session has been closed'' w1)
                             else save_until_generator i st sid content w1))))"

text \<open>
  The rest of \<open>handleSendMessage\<close> once the generator has answered. Every use of
  \<open>state.sessionId\<close> reads the state object as it is then. With a \<open>null\<close> id the typing
  broadcast reaches nobody and Prisma rejects both the insert of the reply and the final
  update, so the handler throws either way.
\<close>

definition after_generator :: "io \<Rightarrow> client_state \<Rightarrow> world \<Rightarrow> outcome \<times> world" where
  "after_generator i st w =
     (let aiResult = getAIResponse (fetch i);
          w1 = broadcast_to (sessionId st) (TYPING_STOP False) w
      in case sessionId st of
           None \<Rightarrow> (Thrown, w1)
         | Some sid \<Rightarrow>
             (case (if ai_content aiResult \<noteq> [] then
                      (if CreateAIMessage \<in> failing i then (Thrown, w1)
                       else
                         (case create_message sid ASSISTANT (ai_content aiResult)
                                 (ai_created_at i) w1 of
                            (aiMessage, w2) \<Rightarrow>
                              (Returned, broadcastToSession sid (AI_RESPONSE aiMessage) None w2)))
                    else (Returned, w1)) of
                (Thrown, w3) \<Rightarrow> (Thrown, w3)
              | (Returned, w3) \<Rightarrow> update_timestamp i sid w3))"

definition send_resume :: "io \<Rightarrow> socket \<Rightarrow> server \<Rightarrow> server" where
  "send_resume i c s =
     (case state_object s c of
        None \<Rightarrow> s
      | Some st \<Rightarrow>
          (case after_generator i st (srv s) of
             (Thrown, w') \<Rightarrow>
               s\<lparr>srv := sendError c ''INVALID_MESSAGE'' ''Failed to process message'' w'\<rparr>
           | (Returned, w') \<Rightarrow> s\<lparr>srv := w'\<rparr>))"

text \<open>
  What happens to the server: an event arrives (a join or a send runs up to its
  suspension point), or the \<open>n\<close>-th suspended handler is resumed with the answers \<open>io\<close> of
  its collaborators.
\<close>

datatype occurrence =
    Arrive event
  | Resume nat io

fun istep :: "string \<Rightarrow> server \<Rightarrow> occurrence \<Rightarrow> server" where
  "istep k s (Resume n i) =
     (if n < length (waiting s) then
        (case waiting s ! n of
           JoinLookup c sid \<Rightarrow>
             join_resume i c sid (s\<lparr>waiting := take n (waiting s) @ drop (Suc n) (waiting s)\<rparr>)
         | GeneratorCall c \<Rightarrow>
             send_resume i c (s\<lparr>waiting := take n (waiting s) @ drop (Suc n) (waiting s)\<rparr>))
      else s)"
| "istep k s (Arrive (Close c)) =
     s\<lparr>srv := on_close c (srv s),
       held := (case clients (srv s) c of None \<Rightarrow> held s | Some st \<Rightarrow> (held s)(c \<mapsto> st))\<rparr>"
| "istep k s (Arrive (Message c i (Some m))) =
     (case clients (srv s) c of
        None \<Rightarrow> s
      | Some st \<Rightarrow>
          if mtype m = ''JOIN_SESSION'' then
            (case join_begin k c st (payload m) (srv s) of
               (None, w) \<Rightarrow> s\<lparr>srv := w\<rparr>
             | (Some sid, w) \<Rightarrow> s\<lparr>srv := w, waiting := waiting s @ [JoinLookup c sid]\<rparr>)
          else if mtype m = ''SEND_MESSAGE'' then
            (case send_begin i c st (payload m) (srv s) of
               (None, w) \<Rightarrow> s\<lparr>srv := w, waiting := waiting s @ [GeneratorCall c]\<rparr>
             | (Some Returned, w) \<Rightarrow> s\<lparr>srv := w\<rparr>
             | (Some Thrown, w) \<Rightarrow>
                 s\<lparr>srv := sendError c ''INVALID_MESSAGE'' ''Failed to process message'' w\<rparr>)
          else s\<lparr>srv := on_message k i c (Some m) (srv s)\<rparr>)"
| "istep k s (Arrive ev) = s\<lparr>srv := step k (srv s) ev\<rparr>"

definition irun :: "string \<Rightarrow> server \<Rightarrow> occurrence list \<Rightarrow> server" where
  "irun k s os = foldl (istep k) s os"

definition boot :: server where
  "boot = \<lparr>srv = init, held = (\<lambda>c. None), waiting = []\<rparr>"

subsection \<open>Observations used in the statements\<close>

text \<open>The effects a handler appended to the trace.\<close>

definition new_effects :: "world \<Rightarrow> world \<Rightarrow> effect list" where
  "new_effects w w' = drop (length (trace w)) (trace w')"

fun is_typing :: "effect \<Rightarrow> bool" where
  "is_typing (Broadcast sid (TYPING_START a) cs) = True"
| "is_typing (Broadcast sid (TYPING_STOP a) cs) = True"
| "is_typing e = False"

fun is_generate :: "effect \<Rightarrow> bool" where
  "is_generate (Generate h) = True"
| "is_generate e = False"

text \<open>The codes of the error envelopes among some effects.\<close>

fun error_codes :: "effect list \<Rightarrow> string list" where
  "error_codes [] = []"
| "error_codes (Send c (ERROR code msg) # es) = code # error_codes es"
| "error_codes (e # es) = error_codes es"


text \<open>
  The number \<open>count\<close> that a check at time \<open>t\<close> reads: the attempts stored under the key
  that are newer than \<open>t - windowSeconds * 1000\<close>.
\<close>

definition recent_attempts :: "world \<Rightarrow> string \<Rightarrow> int \<Rightarrow> int \<Rightarrow> nat" where
  "recent_attempts w key windowSeconds t =
     length (zremrangebyscore (t - windowSeconds * 1000) (zset_at w (''ratelimit:'' @ key) t))"

text \<open>The world a successful check leaves: the attempt at \<open>now i\<close> is stored.\<close>

definition recorded :: "io \<Rightarrow> string \<Rightarrow> int \<Rightarrow> world \<Rightarrow> world" where
  "recorded i key windowSeconds w =
     w\<lparr>redis := (redis w)(''ratelimit:'' @ key \<mapsto>
        (zremrangebyscore (now i - windowSeconds * 1000) (zset_at w (''ratelimit:'' @ key) (now i))
           @ [now i],
         now i + windowSeconds * 1000))\<rparr>"

text \<open>The members of a session's set, and the session a connection is bound to.\<close>

definition members :: "world \<Rightarrow> string \<Rightarrow> socket set" where
  "members w sid = (case sessionClients w sid of None \<Rightarrow> {} | Some cs \<Rightarrow> set cs)"

definition bound :: "world \<Rightarrow> socket \<Rightarrow> string option" where
  "bound w c = (case clients w c of None \<Rightarrow> None | Some st \<Rightarrow> sessionId st)"

subsection \<open>The membership invariant\<close>

text \<open>
  What the registry promises: a connection is in at most one session's set, a set that
  holds a connection is the one keyed by the connection's bound session id, and no set
  is empty.
\<close>

definition membership_ok :: "world \<Rightarrow> bool" where
  "membership_ok w =
     ((\<forall>c s s'. c \<in> members w s \<and> c \<in> members w s' \<longrightarrow> s = s') \<and>
      (\<forall>c s. c \<in> members w s \<longrightarrow> bound w c = Some s) \<and>
      (\<forall>s. sessionClients w s \<noteq> Some []))"

text \<open>
  The invariant that every event preserves: besides the above, a bound connection is in
  the set of its session, no connection is bound to the empty id, and every registered
  socket was handed out by \<open>on_connection\<close>.
\<close>

definition registry_inv :: "world \<Rightarrow> bool" where
  "registry_inv w =
     ((\<forall>c s. c \<in> members w s \<longrightarrow> bound w c = Some s) \<and>
      (\<forall>s. sessionClients w s \<noteq> Some []) \<and>
      (\<forall>c s. bound w c = Some s \<longrightarrow> s \<noteq> [] \<and> c \<in> members w s) \<and>
      (\<forall>c. clients w c \<noteq> None \<longrightarrow> c < next_socket w))"

subsection \<open>Runs of the limiter and of one sender\<close>

text \<open>Successive checks of one key; \<open>None\<close> stands for a check that threw.\<close>

fun check_all :: "string \<Rightarrow> int \<Rightarrow> int \<Rightarrow> io list \<Rightarrow> world \<Rightarrow> bool option list" where
  "check_all key limit W [] w = []"
| "check_all key limit W (i # rest) w =
     (case checkRateLimit i key limit W w of
        (r, w') \<Rightarrow> map_option allowed r # check_all key limit W rest w')"

text \<open>
  The reference the limiter is compared with, in the words of its contract: keep, per
  key, the timestamps of all attempts; an attempt at time \<open>t\<close> is allowed exactly when
  fewer than \<open>limit\<close> of the earlier attempts lie inside the trailing window, that is are
  newer than \<open>t - W * 1000\<close>; and the attempt is recorded whether or not it is allowed.
  \<open>prev\<close> holds the earlier attempts.
\<close>

fun window_log :: "int \<Rightarrow> int \<Rightarrow> int list \<Rightarrow> int list \<Rightarrow> bool list" where
  "window_log limit W prev [] = []"
| "window_log limit W prev (t # ts) =
     (int (length (filter (\<lambda>s. t - W * 1000 < s) prev)) < limit)
       # window_log limit W (prev @ [t]) ts"

text \<open>
  The store accounts for the attempts \<open>prev\<close> of a key: at any time not before them, what
  the purge leaves of the stored scores are the attempts inside the window.
\<close>

definition tracks :: "world \<Rightarrow> string \<Rightarrow> int \<Rightarrow> int list \<Rightarrow> bool" where
  "tracks w key W prev =
     (\<forall>t. (\<forall>s\<in>set prev. s \<le> t) \<longrightarrow>
        zremrangebyscore (t - W * 1000) (zset_at w (''ratelimit:'' @ key) t) =
        filter (\<lambda>s. t - W * 1000 < s) prev)"

text \<open>A \<open>SEND_MESSAGE\<close> frame with the given content, arriving under the given \<open>io\<close>.\<close>

definition send_event :: "socket \<Rightarrow> io \<times> string \<Rightarrow> event" where
  "send_event c x =
     Message c (fst x)
       (Some \<lparr>mtype = ''SEND_MESSAGE'', payload = Some (JObj [(''content'', JStr (snd x))])\<rparr>)"

text \<open>The row that \<open>handleSendMessage\<close> inserts for such a frame.\<close>

definition inserted_row :: "client_state \<Rightarrow> string \<Rightarrow> io \<times> string \<Rightarrow> chat_message" where
  "inserted_row st sid x =
     \<lparr>m_sessionId = sid,
      m_role = (if isAdmin st then ASSISTANT else USER),
      m_content = (if isAdmin st then ''[Marin]: '' @ snd x else snd x),
      m_createdAt = created_at (fst x)\<rparr>"

text \<open>Socket \<open>c\<close> is open and bound to the active session \<open>sid\<close>.\<close>

definition serving :: "world \<Rightarrow> socket \<Rightarrow> client_state \<Rightarrow> string \<Rightarrow> bool" where
  "serving w c st sid =
     (clients w c = Some st \<and> sessionId st = Some sid \<and> sid \<noteq> [] \<and>
      readyState w c = WS_OPEN \<and>
      (\<exists>s. chatSession w sid = Some s \<and> s_status s = ACTIVE))"

subsection \<open>Example data\<close>

definition key0 :: string where
  "key0 = ''0123456789abcdef0123456789abcdef''"

definition sid0 :: string where
  "sid0 = ''11111111-1111-4111-8111-111111111111''"

definition sid1 :: string where
  "sid1 = ''22222222-2222-4222-8222-222222222222''"

definition session0 :: chat_session where
  "session0 = \<lparr>s_id = sid0, s_visitorId = ''v1'', s_visitorName = None, s_status = ACTIVE,
     s_metadata = None, s_createdAt = 0, s_updatedAt = 0\<rparr>"

definition greeting :: chat_message where
  "greeting = \<lparr>m_sessionId = sid0, m_role = ASSISTANT, m_content = ''Welcome'',
     m_createdAt = 0\<rparr>"

definition io0 :: io where
  "io0 = \<lparr>now = 1000, created_at = 1001, ai_created_at = 1002, updated_at = 1003,
     failing = {}, fetch = Body (Some ''hi there'')\<rparr>"

definition visitor0 :: client_state where
  "visitor0 = \<lparr>ws = 0, sessionId = Some sid0, isAdmin = False, ip = ''10.0.0.1''\<rparr>"

text \<open>One visitor, socket 0, bound to the active session \<open>sid0\<close> that holds its greeting.\<close>

definition visitor_world :: world where
  "visitor_world =
     \<lparr>clients = [0 \<mapsto> visitor0],
      sessionClients = [sid0 \<mapsto> [0]],
      readyState = (\<lambda>c. WS_CLOSED)(0 := WS_OPEN),
      next_socket = 1,
      chatSession = [sid0 \<mapsto> session0],
      chatMessage = [greeting],
      redis = (\<lambda>k. None),
      trace = []\<rparr>"

text \<open>The same with socket 0 joined as admin.\<close>

definition admin_world :: world where
  "admin_world = visitor_world\<lparr>clients := [0 \<mapsto> visitor0\<lparr>isAdmin := True\<rparr>]\<rparr>"

text \<open>One connection, socket 0, that has not joined anything.\<close>

definition unbound_world :: world where
  "unbound_world = visitor_world\<lparr>clients := [0 \<mapsto> visitor0\<lparr>sessionId := None\<rparr>],
     sessionClients := (\<lambda>s. None)\<rparr>"

definition send_hey :: ws_message where
  "send_hey = \<lparr>mtype = ''SEND_MESSAGE'', payload = Some (JObj [(''content'', JStr ''hey'')])\<rparr>"

text \<open>The visitor's session has been removed from the table after the join.\<close>

definition vanished_world :: world where
  "vanished_world = visitor_world\<lparr>chatSession := (\<lambda>s. None)\<rparr>"

text \<open>A join that claims admin with the right key, for a session that does not exist.\<close>

definition join_admin_missing :: ws_message where
  "join_admin_missing =
     \<lparr>mtype = ''JOIN_SESSION'',
      payload = Some (JObj [(''sessionId'', JStr sid1), (''isAdmin'', JBool True),
                            (''adminKey'', JStr key0)])\<rparr>"

text \<open>
  The visitor's session with twenty stored messages: the greeting, then nineteen
  messages of the visitor, created at times 1 to 19. \<open>hey_message\<close> is the row that
  \<open>send_hey\<close> inserts under \<open>io0\<close>.
\<close>

definition old_message :: "nat \<Rightarrow> chat_message" where
  "old_message n = \<lparr>m_sessionId = sid0, m_role = USER, m_content = ''old'', m_createdAt = int n\<rparr>"

definition busy_world :: world where
  "busy_world = visitor_world\<lparr>chatMessage := greeting # map old_message [1..<20]\<rparr>"

definition hey_message :: chat_message where
  "hey_message = \<lparr>m_sessionId = sid0, m_role = USER, m_content = ''hey'', m_createdAt = 1001\<rparr>"

text \<open>
  A second session, two joins, and a run from the initial state: the tables are filled,
  a client connects and joins \<open>sid0\<close>.
\<close>

definition session1 :: chat_session where
  "session1 = session0\<lparr>s_id := sid1, s_visitorId := ''v2''\<rparr>"

definition join0 :: ws_message where
  "join0 = \<lparr>mtype = ''JOIN_SESSION'', payload = Some (JObj [(''sessionId'', JStr sid0)])\<rparr>"

definition join1 :: ws_message where
  "join1 = \<lparr>mtype = ''JOIN_SESSION'', payload = Some (JObj [(''sessionId'', JStr sid1)])\<rparr>"

definition evs0 :: "event list" where
  "evs0 = [Storage [sid0 \<mapsto> session0, sid1 \<mapsto> session1] [greeting],
           Connection None (Some ''10.0.0.1''),
           Message 0 io0 (Some join0)]"

text \<open>
  Thirty-one messages within one second, and four checks of which the last comes after
  the first two have left the window.
\<close>

definition burst :: "(io \<times> string) list" where
  "burst = replicate 31 (io0, ''hey'')"

definition spaced :: "io list" where
  "spaced = [io0, io0\<lparr>now := 2000\<rparr>, io0\<lparr>now := 3000\<rparr>, io0\<lparr>now := 62500\<rparr>]"

text \<open>
  Two members of \<open>sid0\<close>, the visitor on socket 0 and an admin on socket 1; the visitor
  sends a message and leaves while the generator is still working.
\<close>

definition observer1 :: client_state where
  "observer1 = \<lparr>ws = 1, sessionId = Some sid0, isAdmin = True, ip = ''10.0.0.2''\<rparr>"

definition pair_world :: world where
  "pair_world =
     visitor_world\<lparr>clients := [0 \<mapsto> visitor0, 1 \<mapsto> observer1],
       sessionClients := [sid0 \<mapsto> [0, 1]],
       readyState := (\<lambda>c. WS_CLOSED)(0 := WS_OPEN, 1 := WS_OPEN),
       next_socket := 2\<rparr>"

definition pair_server :: server where
  "pair_server = \<lparr>srv = pair_world, held = (\<lambda>c. None), waiting = []\<rparr>"

definition leave_frame :: ws_message where
  "leave_frame = \<lparr>mtype = ''LEAVE_SESSION'', payload = None\<rparr>"

definition leave_during_generator :: "occurrence list" where
  "leave_during_generator =
     [Arrive (Message 0 io0 (Some send_hey)),
      Arrive (Message 0 io0 (Some leave_frame)),
      Resume 0 io0]"

text \<open>
  From the start of the server: a client connects and joins \<open>sid0\<close>, and its socket closes
  while the join awaits its session lookup.
\<close>

definition close_during_lookup :: "occurrence list" where
  "close_during_lookup =
     [Arrive (Storage [sid0 \<mapsto> session0] [greeting]),
      Arrive (Connection None (Some ''10.0.0.1'')),
      Arrive (Message 0 io0 (Some join0)),
      Arrive (Close 0),
      Resume 0 io0]"

section \<open>Properties\<close>

subsection \<open>What each piece does to the world\<close>

lemma sendError_eq:
  "sendError c code msg w =
     w\<lparr>trace := trace w @ (if readyState w c = WS_OPEN then [Send c (ERROR code msg)] else [])\<rparr>"
  by (simp add: sendError_def emit_def)

lemma broadcast_eq:
  "broadcastToSession sid e x w = w\<lparr>trace := trace w @ [Broadcast sid e (recipients w sid x)]\<rparr>"
  by (simp add: broadcastToSession_def emit_def)

lemma recipients_upd [simp]:
  "recipients (w\<lparr>trace := t\<rparr>) = recipients w"
  "recipients (w\<lparr>chatMessage := ms\<rparr>) = recipients w"
  "recipients (w\<lparr>chatSession := ss\<rparr>) = recipients w"
  "recipients (w\<lparr>redis := r\<rparr>) = recipients w"
  by (simp_all add: recipients_def fun_eq_iff split: option.splits)

lemma findMany_upd [simp]:
  "findMany sid n (w\<lparr>trace := t\<rparr>) = findMany sid n w"
  "findMany sid n (w\<lparr>redis := r\<rparr>) = findMany sid n w"
  "findMany sid n (w\<lparr>chatSession := ss\<rparr>) = findMany sid n w"
  by (simp_all add: findMany_def)

lemma checkRateLimit_up:
  assumes "RedisExec \<notin> failing i"
  shows "checkRateLimit i key limit W w =
     (Some \<lparr>allowed = int (recent_attempts w key W (now i)) < limit,
            remaining = max 0 (limit - int (recent_attempts w key W (now i)) - 1),
            resetIn = W\<rparr>,
      recorded i key W w)"
  using assms by (simp add: checkRateLimit_def recent_attempts_def recorded_def Let_def)

lemma checkRateLimit_down:
  assumes "RedisExec \<in> failing i"
  shows "checkRateLimit i key limit W w = (None, w)"
  using assms by (simp add: checkRateLimit_def Let_def)

lemma recorded_fields [simp]:
  "clients (recorded i key W w) = clients w"
  "sessionClients (recorded i key W w) = sessionClients w"
  "readyState (recorded i key W w) = readyState w"
  "next_socket (recorded i key W w) = next_socket w"
  "chatSession (recorded i key W w) = chatSession w"
  "chatMessage (recorded i key W w) = chatMessage w"
  "trace (recorded i key W w) = trace w"
  "recipients (recorded i key W w) = recipients w"
  by (simp_all add: recorded_def)

lemma respond_with_ai_eq:
  assumes "FindHistory \<notin> failing i"
  shows "respond_with_ai i sid w =
    (let rs = recipients w sid None;
         h = map (\<lambda>m. (role_lower (m_role m), m_content m)) (findMany sid (Some 20) w);
         typing = [Broadcast sid (TYPING_START False) rs, Generate h,
                   Broadcast sid (TYPING_STOP False) rs];
         reply = \<lparr>m_sessionId = sid, m_role = ASSISTANT,
                  m_content = ai_content (getAIResponse (fetch i)),
                  m_createdAt = ai_created_at i\<rparr>
     in if ai_content (getAIResponse (fetch i)) = [] then
          (Returned, w\<lparr>trace := trace w @ typing\<rparr>)
        else if CreateAIMessage \<in> failing i then (Thrown, w\<lparr>trace := trace w @ typing\<rparr>)
        else (Returned, w\<lparr>chatMessage := chatMessage w @ [reply],
                trace := trace w @ typing @ [Broadcast sid (AI_RESPONSE reply) rs]\<rparr>))"
  using assms
  by (simp add: respond_with_ai_def broadcast_eq emit_def create_message_def Let_def)

lemma update_timestamp_eq:
  "update_timestamp i sid w =
     (if UpdateSession \<in> failing i then (Thrown, w)
      else case chatSession w sid of None \<Rightarrow> (Thrown, w)
        | Some s \<Rightarrow> (Returned,
            w\<lparr>chatSession := (chatSession w)(sid \<mapsto> s\<lparr>s_updatedAt := updated_at i\<rparr>)\<rparr>))"
  by (simp add: update_timestamp_def)

lemma update_timestamp_frame:
  assumes "update_timestamp i sid w = (out, w')"
  shows "trace w' = trace w" "chatMessage w' = chatMessage w" "readyState w' = readyState w"
    "clients w' = clients w" "sessionClients w' = sessionClients w" "redis w' = redis w"
    "next_socket w' = next_socket w"
  using assms by (auto simp: update_timestamp_eq split: if_splits option.splits)

lemma update_timestamp_outcome:
  assumes "chatSession w sid = Some s"
  shows "fst (update_timestamp i sid w) = (if UpdateSession \<in> failing i then Thrown else Returned)"
  using assms by (simp add: update_timestamp_eq)

lemma handleSendMessage_saves:
  assumes "sessionId st = Some sid" and "sid \<noteq> []"
    and "WsSendMessageSchema p = Some content"
    and "RedisExec \<notin> failing i"
    and "recent_attempts w (''ws-message:'' @ ip st) 60 (now i) < 30"
    and "FindSession \<notin> failing i" and "chatSession w sid = Some s" and "s_status s = ACTIVE"
  shows "handleSendMessage i c st p w =
           save_and_broadcast i st sid content (recorded i (''ws-message:'' @ ip st) 60 w)"
  using assms by (simp add: handleSendMessage_def checkRateLimit_up)

lemma on_message_send:
  assumes "clients w c = Some st"
  shows "on_message k i c (Some \<lparr>mtype = ''SEND_MESSAGE'', payload = p\<rparr>) w =
     (case handleSendMessage i c st p w of
        (Thrown, w') \<Rightarrow> sendError c ''INVALID_MESSAGE'' ''Failed to process message'' w'
      | (Returned, w') \<Rightarrow> w')"
  using assms by (simp add: on_message_def handleMessage_def)

lemma save_admin:
  assumes "isAdmin st" and "CreateMessage \<notin> failing i"
  shows "save_and_broadcast i st sid content w =
     update_timestamp i sid
       (w\<lparr>chatMessage := chatMessage w @
            [\<lparr>m_sessionId = sid, m_role = ASSISTANT, m_content = ''[Marin]: '' @ content,
              m_createdAt = created_at i\<rparr>],
          trace := trace w @
            [Broadcast sid (MESSAGE_RECEIVED
               \<lparr>m_sessionId = sid, m_role = ASSISTANT, m_content = ''[Marin]: '' @ content,
                m_createdAt = created_at i\<rparr>) (recipients w sid None)]\<rparr>)"
  using assms
  by (simp add: save_and_broadcast_def create_message_def broadcast_eq Let_def
      del: append.simps)

lemma save_visitor:
  assumes "\<not> isAdmin st" and "CreateMessage \<notin> failing i"
  shows "save_and_broadcast i st sid content w =
     (case respond_with_ai i sid
       (w\<lparr>chatMessage := chatMessage w @
            [\<lparr>m_sessionId = sid, m_role = USER, m_content = content,
              m_createdAt = created_at i\<rparr>],
          trace := trace w @
            [Broadcast sid (MESSAGE_RECEIVED
               \<lparr>m_sessionId = sid, m_role = USER, m_content = content,
                m_createdAt = created_at i\<rparr>) (recipients w sid None)]\<rparr>) of
        (Thrown, w3) \<Rightarrow> (Thrown, w3)
      | (Returned, w3) \<Rightarrow> update_timestamp i sid w3)"
  using assms
  by (simp add: save_and_broadcast_def create_message_def broadcast_eq Let_def)

lemma save_fails:
  assumes "CreateMessage \<in> failing i"
  shows "save_and_broadcast i st sid content w = (Thrown, w)"
  using assms by (simp add: save_and_broadcast_def Let_def)

lemma handleSendMessage_bound:
  assumes "sessionId st = Some sid" and "sid \<noteq> []"
  shows "handleSendMessage i c st p w =
    (case WsSendMessageSchema p of
       None \<Rightarrow> (Returned, sendError c ''VALIDATION_ERROR'' ''Invalid message payload'' w)
     | Some content \<Rightarrow>
        if RedisExec \<in> failing i then (Thrown, w)
        else if \<not> recent_attempts w (''ws-message:'' @ ip st) 60 (now i) < 30 then
          (Returned, sendError c ''RATE_LIMITED'' ''Too many messages. Please slow down.''
             (recorded i (''ws-message:'' @ ip st) 60 w))
        else if FindSession \<in> failing i then (Thrown, recorded i (''ws-message:'' @ ip st) 60 w)
        else
          (case chatSession w sid of
             None \<Rightarrow>
               (Returned, sendError c ''SESSION_CLOSED'' ''This session has been closed''
                  (recorded i (''ws-message:'' @ ip st) 60 w))
           | Some session \<Rightarrow>
               if s_status session \<noteq> ACTIVE then
                 (Returned, sendError c ''SESSION_CLOSED'' ''This session has been closed''
                    (recorded i (''ws-message:'' @ ip st) 60 w))
               else save_and_broadcast i st sid content (recorded i (''ws-message:'' @ ip st) 60 w)))"
proof (cases "RedisExec \<in> failing i")
  case True
  then show ?thesis using assms
    by (simp add: handleSendMessage_def checkRateLimit_down split: option.splits)
next
  case False
  then show ?thesis using assms
    by (simp add: handleSendMessage_def checkRateLimit_up split: option.splits)
qed

text \<open>Evaluating the example data.\<close>

lemma send_hey_parse: "WsSendMessageSchema (payload send_hey) = Some ''hey''"
  by (simp add: WsSendMessageSchema_def send_hey_def)

lemma no_attempts_yet:
  "redis w (''ratelimit:'' @ key) = None \<Longrightarrow> recent_attempts w key W t = 0"
  by (simp add: recent_attempts_def zset_at_def zremrangebyscore_def)

lemmas example_defs =
  visitor_world_def admin_world_def unbound_world_def vanished_world_def visitor0_def io0_def

lemma on_message_send_thrown:
  assumes "clients w c = Some st" and "handleSendMessage i c st p w = (Thrown, w1)"
  shows "on_message k i c (Some \<lparr>mtype = ''SEND_MESSAGE'', payload = p\<rparr>) w =
           sendError c ''INVALID_MESSAGE'' ''Failed to process message'' w1"
  using assms by (simp add: on_message_send)

lemma visitor0_bound: "sessionId visitor0 = Some sid0" "sid0 \<noteq> []"
  by (simp_all add: visitor0_def sid0_def)

lemma visitor_world_fields:
  "clients visitor_world 0 = Some visitor0"
  "readyState visitor_world 0 = WS_OPEN"
  "chatSession visitor_world sid0 = Some session0"
  "chatMessage visitor_world = [greeting]"
  "trace visitor_world = []"
  "redis visitor_world key = None"
  "recipients visitor_world sid0 None = [0]"
  by (simp_all add: visitor_world_def recipients_def)

lemma on_message_join:
  assumes "clients w c = Some st"
  shows "on_message k i c (Some \<lparr>mtype = ''JOIN_SESSION'', payload = p\<rparr>) w =
     (case handleJoinSession k i c st p w of
        (Thrown, w') \<Rightarrow> sendError c ''INVALID_MESSAGE'' ''Failed to process message'' w'
      | (Returned, w') \<Rightarrow> w')"
  using assms by (simp add: on_message_def handleMessage_def)

lemma uuid_sid0: "is_uuid sid0"
  by (simp add: is_uuid_def sid0_def is_hex_def)

lemma uuid_sid1: "is_uuid sid1"
  by (simp add: is_uuid_def sid1_def is_hex_def)

lemma join_admin_missing_parse:
  "WsJoinSessionSchema (payload join_admin_missing) =
     Some \<lparr>jp_sessionId = sid1, jp_isAdmin = Some True, jp_adminKey = Some key0\<rparr>"
  using uuid_sid1
  by (simp add: WsJoinSessionSchema_def join_admin_missing_def optional_boolean_def
      optional_string_def)

lemma key0_ok: "admin_key_ok key0 (Some key0)"
  by (simp add: admin_key_ok_def key0_def)

lemma join_missing_eq:
  assumes "WsJoinSessionSchema p = Some jp"
    and "jp_isAdmin jp = Some True \<longrightarrow> admin_key_ok k (jp_adminKey jp)"
    and "FindSession \<notin> failing i"
    and "chatSession w (jp_sessionId jp) = None"
  shows "handleJoinSession k i c st p w =
     (Returned, sendError c ''SESSION_NOT_FOUND'' ''Chat session not found''
        (if jp_isAdmin jp = Some True then set_state c (st\<lparr>isAdmin := True\<rparr>) w else w))"
  using assms
  by (simp add: handleJoinSession_def lookup_and_join_def set_state_def)

lemma visitor_send_effects:
  assumes "clients w c = Some st" and "\<not> isAdmin st"
    and "sessionId st = Some sid" and "sid \<noteq> []"
    and "WsSendMessageSchema p = Some content"
    and "RedisExec \<notin> failing i"
    and "recent_attempts w (''ws-message:'' @ ip st) 60 (now i) < 30"
    and "FindSession \<notin> failing i" and "chatSession w sid = Some s" and "s_status s = ACTIVE"
    and "CreateMessage \<notin> failing i" and "FindHistory \<notin> failing i"
    and "w' = on_message k i c (Some \<lparr>mtype = ''SEND_MESSAGE'', payload = p\<rparr>) w"
    and "msg = \<lparr>m_sessionId = sid, m_role = USER, m_content = content,
                m_createdAt = created_at i\<rparr>"
  shows "\<exists>tl. new_effects w w' =
           Broadcast sid (MESSAGE_RECEIVED msg) (recipients w sid None) #
           [Broadcast sid (TYPING_START False) (recipients w sid None),
            Generate (map (\<lambda>m. (role_lower (m_role m), m_content m))
               (findMany sid (Some 20) (w\<lparr>chatMessage := chatMessage w @ [msg]\<rparr>))),
            Broadcast sid (TYPING_STOP False) (recipients w sid None)] @ tl \<and>
           filter (\<lambda>e. is_typing e \<or> is_generate e) tl = []"
proof -
  let ?w1 = "recorded i (''ws-message:'' @ ip st) 60 w"
  let ?w2 = "?w1\<lparr>chatMessage := chatMessage ?w1 @ [msg],
      trace := trace ?w1 @ [Broadcast sid (MESSAGE_RECEIVED msg) (recipients ?w1 sid None)]\<rparr>"
  let ?typing = "[Broadcast sid (TYPING_START False) (recipients w sid None),
            Generate (map (\<lambda>m. (role_lower (m_role m), m_content m))
               (findMany sid (Some 20) (w\<lparr>chatMessage := chatMessage w @ [msg]\<rparr>))),
            Broadcast sid (TYPING_STOP False) (recipients w sid None)]"
  let ?head = "Broadcast sid (MESSAGE_RECEIVED msg) (recipients w sid None)"
  let ?err = "Send c (ERROR ''INVALID_MESSAGE'' ''Failed to process message'')"
  have fm: "findMany sid (Some 20) ?w2 =
      findMany sid (Some 20) (w\<lparr>chatMessage := chatMessage w @ [msg]\<rparr>)"
    by (simp add: findMany_def)
  obtain out w3 where a: "respond_with_ai i sid ?w2 = (out, w3)"
    by (cases "respond_with_ai i sid ?w2")
  have a_tr: "\<exists>tl. trace w3 = trace w @ ?head # ?typing @ tl
        \<and> filter (\<lambda>e. is_typing e \<or> is_generate e) tl = []"
    using a fm unfolding respond_with_ai_eq[OF assms(12)]
    by (auto simp: Let_def split: if_splits)
  then obtain tl where tl: "trace w3 = trace w @ ?head # ?typing @ tl"
      "filter (\<lambda>e. is_typing e \<or> is_generate e) tl = []" by blast
  have h: "handleSendMessage i c st p w =
      (case out of Thrown \<Rightarrow> (Thrown, w3) | Returned \<Rightarrow> update_timestamp i sid w3)"
    using handleSendMessage_saves[OF assms(3-10)] save_visitor[OF assms(2,11)] assms(14) a
    by (simp split: outcome.splits)
  obtain out' w4 where u: "handleSendMessage i c st p w = (out', w4)"
    by (cases "handleSendMessage i c st p w")
  have w4: "trace w4 = trace w3"
    using h u update_timestamp_frame(1)[of i sid w3 out' w4] by (auto split: outcome.splits)
  have "trace w' = trace w3 \<or> trace w' = trace w3 @ [?err]"
    using assms(13) on_message_send[OF assms(1)] u w4
    by (auto simp: sendError_eq split: outcome.splits)
  then have "\<exists>tl'. trace w' = trace w @ ?head # ?typing @ tl'
        \<and> filter (\<lambda>e. is_typing e \<or> is_generate e) tl' = []"
  proof
    assume "trace w' = trace w3"
    then show ?thesis using tl by auto
  next
    assume "trace w' = trace w3 @ [?err]"
    then have "trace w' = trace w @ ?head # ?typing @ (tl @ [?err])"
      using tl by simp
    moreover have "filter (\<lambda>e. is_typing e \<or> is_generate e) (tl @ [?err]) = []"
      using tl by simp
    ultimately show ?thesis by blast
  qed
  then obtain tl' where "trace w' = trace w @ ?head # ?typing @ tl'"
        "filter (\<lambda>e. is_typing e \<or> is_generate e) tl' = []" by blast
  then have "new_effects w w' = ?head # ?typing @ tl' \<and>
      filter (\<lambda>e. is_typing e \<or> is_generate e) tl' = []"
    by (simp add: new_effects_def)
  then show ?thesis by blast
qed

subsection \<open>Typing indicators from an unbound connection\<close>

text \<open>
  Claim C9. A \<open>TYPING_START\<close> or \<open>TYPING_STOP\<close> envelope that arrives on a connection
  with no bound session (\<open>sessionId\<close> is \<open>null\<close>) changes nothing: the world after the
  \<open>message\<close> listener is the world before it, so the trace gains neither a broadcast nor
  an error envelope (in particular no \<open>NOT_IN_SESSION\<close>).
\<close>

theorem typing_from_unbound_is_silent:
  assumes "clients w c = Some st" and "sessionId st = None"
    and "mtype m = ''TYPING_START'' \<or> mtype m = ''TYPING_STOP''"
  shows "on_message k i c (Some m) w = w"
  using assms by (auto simp: on_message_def handleMessage_def)

theorem typing_from_unbound_is_silent_witness:
  "clients unbound_world 0 = Some (visitor0\<lparr>sessionId := None\<rparr>) \<and>
   sessionId (visitor0\<lparr>sessionId := None\<rparr>) = None \<and>
   on_message key0 io0 0 (Some \<lparr>mtype = ''TYPING_START'', payload = None\<rparr>) unbound_world =
     unbound_world"
  using typing_from_unbound_is_silent
    [of unbound_world 0 "visitor0\<lparr>sessionId := None\<rparr>"
        "\<lparr>mtype = ''TYPING_START'', payload = None\<rparr>" key0 io0]
  by (simp add: unbound_world_def visitor_world_def)

subsection \<open>A message for a session that no longer exists\<close>



subsection \<open>A message sent by an admin\<close>

text \<open>
  Claim C8. When a connection whose admin flag is set sends a valid \<open>SEND_MESSAGE\<close> to
  its active session under the rate limit, and the insert succeeds, the message table
  gains exactly one row, with role \<open>ASSISTANT\<close> and the content prefixed by the marker
  \<open>[Marin]: \<close>; the handler broadcasts \<open>MESSAGE_RECEIVED\<close> for that row and, besides an
  \<open>INVALID_MESSAGE\<close> error if the final timestamp update rejects, does nothing else: no
  call of the generator, no \<open>TYPING_START\<close>, no \<open>TYPING_STOP\<close>.
\<close>

theorem admin_message_is_attributed:
  assumes "clients w c = Some st" and "isAdmin st"
    and "sessionId st = Some sid" and "sid \<noteq> []"
    and "WsSendMessageSchema p = Some content"
    and "RedisExec \<notin> failing i"
    and "recent_attempts w (''ws-message:'' @ ip st) 60 (now i) < 30"
    and "FindSession \<notin> failing i" and "chatSession w sid = Some s" and "s_status s = ACTIVE"
    and "CreateMessage \<notin> failing i"
    and "w' = on_message k i c (Some \<lparr>mtype = ''SEND_MESSAGE'', payload = p\<rparr>) w"
    and "msg = \<lparr>m_sessionId = sid, m_role = ASSISTANT, m_content = ''[Marin]: '' @ content,
                m_createdAt = created_at i\<rparr>"
  shows "chatMessage w' = chatMessage w @ [msg] \<and>
         new_effects w w' =
           Broadcast sid (MESSAGE_RECEIVED msg) (recipients w sid None) #
           (if UpdateSession \<in> failing i \<and> readyState w c = WS_OPEN
            then [Send c (ERROR ''INVALID_MESSAGE'' ''Failed to process message'')] else []) \<and>
         filter (\<lambda>e. is_typing e \<or> is_generate e) (new_effects w w') = []"
proof -
  let ?w1 = "recorded i (''ws-message:'' @ ip st) 60 w"
  let ?w2 = "?w1\<lparr>chatMessage := chatMessage ?w1 @ [msg],
      trace := trace ?w1 @ [Broadcast sid (MESSAGE_RECEIVED msg) (recipients ?w1 sid None)]\<rparr>"
  have h: "handleSendMessage i c st p w = update_timestamp i sid ?w2"
    using handleSendMessage_saves[OF assms(3-10)] save_admin[OF assms(2,11)] assms(13)
    by simp
  obtain out w3 where u: "update_timestamp i sid ?w2 = (out, w3)"
    by (cases "update_timestamp i sid ?w2")
  have out: "out = (if UpdateSession \<in> failing i then Thrown else Returned)"
    using update_timestamp_outcome[of ?w2 sid s i] u assms(9) by simp
  note uf = update_timestamp_frame[OF u]
  have w': "w' = (case out of
        Thrown \<Rightarrow> sendError c ''INVALID_MESSAGE'' ''Failed to process message'' w3
      | Returned \<Rightarrow> w3)"
    using assms(12) on_message_send[OF assms(1)] h u by (simp split: outcome.splits)
  have m: "chatMessage w' = chatMessage w @ [msg]"
    using w' uf by (simp add: sendError_eq split: outcome.splits)
  have t: "new_effects w w' =
           Broadcast sid (MESSAGE_RECEIVED msg) (recipients w sid None) #
           (if UpdateSession \<in> failing i \<and> readyState w c = WS_OPEN
            then [Send c (ERROR ''INVALID_MESSAGE'' ''Failed to process message'')] else [])"
    using w' uf out by (simp add: sendError_eq new_effects_def split: outcome.splits)
  show ?thesis using m t by simp
qed

theorem admin_message_is_attributed_witness:
  "isAdmin (visitor0\<lparr>isAdmin := True\<rparr>) \<and>
   chatMessage (on_message key0 io0 0 (Some send_hey) admin_world) =
     [greeting, \<lparr>m_sessionId = sid0, m_role = ASSISTANT, m_content = ''[Marin]: hey'',
                 m_createdAt = 1001\<rparr>] \<and>
   new_effects admin_world (on_message key0 io0 0 (Some send_hey) admin_world) =
     [Broadcast sid0 (MESSAGE_RECEIVED \<lparr>m_sessionId = sid0, m_role = ASSISTANT,
        m_content = ''[Marin]: hey'', m_createdAt = 1001\<rparr>) [0]]"
  using admin_message_is_attributed
    [of admin_world 0 "visitor0\<lparr>isAdmin := True\<rparr>" sid0 "payload send_hey" "''hey''" io0
        session0 "on_message key0 io0 0 (Some send_hey) admin_world" key0
        "\<lparr>m_sessionId = sid0, m_role = ASSISTANT, m_content = ''[Marin]: hey'',
          m_createdAt = 1001\<rparr>"]
    send_hey_parse no_attempts_yet[of admin_world "''ws-message:'' @ ip visitor0" 60 "now io0"]
  by (simp add: example_defs sid0_def send_hey_def session0_def recipients_def)

subsection \<open>Typing indicators around an uninterrupted generator call\<close>

text \<open>
  A handler that nothing interrupts. When a connection that is not admin sends a valid
  \<open>SEND_MESSAGE\<close> and the handler reaches the generator (limiter, session lookup, insert
  and history query all succeed), then for every outcome of the generator's HTTP call
  (text, empty text, an error status, a rejected request, an unreadable body) and
  whatever the later database calls do, the typing broadcasts and generator calls among
  the new effects are exactly these three, in this order: one \<open>TYPING_START\<close> broadcast to
  the session, one generator call, one \<open>TYPING_STOP\<close> broadcast to the session.
\<close>

lemma uninterrupted_typing_brackets:
  assumes "clients w c = Some st" and "\<not> isAdmin st"
    and "sessionId st = Some sid" and "sid \<noteq> []"
    and "WsSendMessageSchema p = Some content"
    and "RedisExec \<notin> failing i"
    and "recent_attempts w (''ws-message:'' @ ip st) 60 (now i) < 30"
    and "FindSession \<notin> failing i" and "chatSession w sid = Some s" and "s_status s = ACTIVE"
    and "CreateMessage \<notin> failing i" and "FindHistory \<notin> failing i"
    and "w' = on_message k i c (Some \<lparr>mtype = ''SEND_MESSAGE'', payload = p\<rparr>) w"
    and "msg = \<lparr>m_sessionId = sid, m_role = USER, m_content = content,
                m_createdAt = created_at i\<rparr>"
  shows "filter (\<lambda>e. is_typing e \<or> is_generate e) (new_effects w w') =
           [Broadcast sid (TYPING_START False) (recipients w sid None),
            Generate (map (\<lambda>m. (role_lower (m_role m), m_content m))
               (findMany sid (Some 20) (w\<lparr>chatMessage := chatMessage w @ [msg]\<rparr>))),
            Broadcast sid (TYPING_STOP False) (recipients w sid None)]"
  using visitor_send_effects[OF assms] by auto

lemma findMany_two:
  "findMany sid0 (Some 20) (visitor_world\<lparr>chatMessage := chatMessage visitor_world @
      [\<lparr>m_sessionId = sid0, m_role = USER, m_content = ''hey'', m_createdAt = 1001\<rparr>]\<rparr>) =
   [greeting, \<lparr>m_sessionId = sid0, m_role = USER, m_content = ''hey'', m_createdAt = 1001\<rparr>]"
  by (simp add: findMany_def visitor_world_def greeting_def)

lemma uninterrupted_typing_brackets_witness:
  "\<not> isAdmin visitor0 \<and>
   getAIResponse (fetch (io0\<lparr>fetch := FetchRejected\<rparr>)) =
     \<lparr>ai_content = [], ai_error = Some ''AI service unavailable''\<rparr> \<and>
   filter (\<lambda>e. is_typing e \<or> is_generate e)
     (new_effects visitor_world
        (on_message key0 (io0\<lparr>fetch := FetchRejected\<rparr>) 0 (Some send_hey) visitor_world)) =
     [Broadcast sid0 (TYPING_START False) [0],
      Generate [(''assistant'', ''Welcome''), (''user'', ''hey'')],
      Broadcast sid0 (TYPING_STOP False) [0]]"
  using uninterrupted_typing_brackets
    [of visitor_world 0 visitor0 sid0 "payload send_hey" "''hey''" "io0\<lparr>fetch := FetchRejected\<rparr>"
        session0
        "on_message key0 (io0\<lparr>fetch := FetchRejected\<rparr>) 0 (Some send_hey) visitor_world" key0
        "\<lparr>m_sessionId = sid0, m_role = USER, m_content = ''hey'', m_createdAt = 1001\<rparr>"]
    send_hey_parse
    no_attempts_yet[of visitor_world "''ws-message:'' @ ip visitor0" 60 "now io0"]
    findMany_two
  by (simp add: example_defs sid0_def send_hey_def session0_def recipients_def greeting_def)

subsection \<open>A rejected insert of the message\<close>

text \<open>
  Claim C6, as the code has it. The handlers never send the code \<open>INTERNAL_ERROR\<close>: a
  rejected \<open>prisma.chatMessage.create\<close> is thrown out of \<open>handleSendMessage\<close> and caught
  by the \<open>message\<close> listener, whose one answer to anything thrown is
  \<open>INVALID_MESSAGE\<close>. First the instance that refutes the claim as stated: the visitor's
  message, with the insert rejecting, is answered by \<open>INVALID_MESSAGE\<close>.
\<close>

theorem persistence_failure_counterexample:
  "CreateMessage \<in> failing (io0\<lparr>failing := {CreateMessage}\<rparr>) \<and>
   new_effects visitor_world
     (on_message key0 (io0\<lparr>failing := {CreateMessage}\<rparr>) 0 (Some send_hey) visitor_world) =
     [Send 0 (ERROR ''INVALID_MESSAGE'' ''Failed to process message'')] \<and>
   ''INTERNAL_ERROR'' \<notin> set (error_codes (new_effects visitor_world
     (on_message key0 (io0\<lparr>failing := {CreateMessage}\<rparr>) 0 (Some send_hey) visitor_world)))"
proof -
  let ?i = "io0\<lparr>failing := {CreateMessage}\<rparr>"
  have "handleSendMessage ?i 0 visitor0 (payload send_hey) visitor_world =
          (Thrown, recorded ?i (''ws-message:'' @ ip visitor0) 60 visitor_world)"
    using send_hey_parse
      no_attempts_yet[of visitor_world "''ws-message:'' @ ip visitor0" 60 "now ?i"]
    by (simp add: handleSendMessage_bound[OF visitor0_bound] visitor_world_fields save_fails
        io0_def session0_def)
  from on_message_send_thrown[OF visitor_world_fields(1) this, of key0]
  have "new_effects visitor_world
     (on_message key0 ?i 0 (Some send_hey) visitor_world) =
     [Send 0 (ERROR ''INVALID_MESSAGE'' ''Failed to process message'')]"
    by (simp add: send_hey_def sendError_eq new_effects_def visitor_world_fields)
  then show ?thesis by (simp add: io0_def)
qed

text \<open>
  Claim C6, amended. When a bound connection (its socket open) sends a valid
  \<open>SEND_MESSAGE\<close> to its active session under the rate limit and the insert of the
  message rejects, the sender receives exactly one error envelope, with code
  \<open>INVALID_MESSAGE\<close>; nothing is broadcast and the message table is unchanged.
\<close>

theorem persistence_failure_is_invalid_message:
  assumes "clients w c = Some st"
    and "sessionId st = Some sid" and "sid \<noteq> []"
    and "WsSendMessageSchema p = Some content"
    and "RedisExec \<notin> failing i"
    and "recent_attempts w (''ws-message:'' @ ip st) 60 (now i) < 30"
    and "FindSession \<notin> failing i" and "chatSession w sid = Some s" and "s_status s = ACTIVE"
    and "CreateMessage \<in> failing i"
    and "readyState w c = WS_OPEN"
    and "w' = on_message k i c (Some \<lparr>mtype = ''SEND_MESSAGE'', payload = p\<rparr>) w"
  shows "new_effects w w' = [Send c (ERROR ''INVALID_MESSAGE'' ''Failed to process message'')] \<and>
         chatMessage w' = chatMessage w"
  using assms
  by (simp add: on_message_send handleSendMessage_saves[OF assms(2-9)] save_fails sendError_eq
      new_effects_def)

theorem persistence_failure_is_invalid_message_witness:
  "chatSession visitor_world sid0 = Some session0 \<and> s_status session0 = ACTIVE \<and>
   error_codes (new_effects visitor_world
     (on_message key0 (io0\<lparr>failing := {CreateMessage}\<rparr>) 0 (Some send_hey) visitor_world)) =
     [''INVALID_MESSAGE''] \<and>
   chatMessage (on_message key0 (io0\<lparr>failing := {CreateMessage}\<rparr>) 0 (Some send_hey) visitor_world)
     = [greeting]"
  using persistence_failure_is_invalid_message
    [of visitor_world 0 visitor0 sid0 "payload send_hey" "''hey''"
        "io0\<lparr>failing := {CreateMessage}\<rparr>" session0
        "on_message key0 (io0\<lparr>failing := {CreateMessage}\<rparr>) 0 (Some send_hey) visitor_world" key0]
    send_hey_parse
    no_attempts_yet[of visitor_world "''ws-message:'' @ ip visitor0" 60 "now io0"]
  by (simp add: example_defs sid0_def send_hey_def session0_def)

subsection \<open>A rate limiter whose store is unreachable\<close>

text \<open>
  Claim C5 on the code. \<open>handleSendMessage\<close> awaits \<open>checkRateLimit\<close> outside any
  \<open>try\<close>, so a rejected Redis transaction is thrown to the \<open>message\<close> listener: the
  visitor's valid message to its active session is answered by \<open>INVALID_MESSAGE\<close> and is
  not stored. (The HTTP middleware \<open>rateLimit\<close> catches the same rejection and lets the
  request through.)
\<close>

theorem limiter_outage_rejects_message:
  "RedisExec \<in> failing (io0\<lparr>failing := {RedisExec}\<rparr>) \<and>
   new_effects visitor_world
     (on_message key0 (io0\<lparr>failing := {RedisExec}\<rparr>) 0 (Some send_hey) visitor_world) =
     [Send 0 (ERROR ''INVALID_MESSAGE'' ''Failed to process message'')] \<and>
   chatMessage (on_message key0 (io0\<lparr>failing := {RedisExec}\<rparr>) 0 (Some send_hey) visitor_world) =
     chatMessage visitor_world"
proof -
  let ?i = "io0\<lparr>failing := {RedisExec}\<rparr>"
  have "handleSendMessage ?i 0 visitor0 (payload send_hey) visitor_world = (Thrown, visitor_world)"
    using send_hey_parse
    by (simp add: handleSendMessage_bound[OF visitor0_bound] io0_def)
  from on_message_send_thrown[OF visitor_world_fields(1) this, of key0]
  show ?thesis
    by (simp add: send_hey_def sendError_eq new_effects_def visitor_world_fields io0_def)
qed

subsection \<open>Joining a session that does not exist\<close>

text \<open>
  Claim C2, as the code has it. \<open>handleJoinSession\<close> sets \<open>state.isAdmin\<close> as soon as the
  admin key is verified, before it looks the session up. First the instance that refutes
  the claim as stated: an unbound connection that is not admin joins a missing session
  with \<open>isAdmin\<close> and the right key; it is answered \<open>SESSION_NOT_FOUND\<close>, stays unbound, and
  its admin flag is now set.
\<close>

theorem join_of_missing_session_counterexample:
  "chatSession unbound_world sid1 = None \<and>
   clients unbound_world 0 =
     Some \<lparr>ws = 0, sessionId = None, isAdmin = False, ip = ''10.0.0.1''\<rparr> \<and>
   clients (on_message key0 io0 0 (Some join_admin_missing) unbound_world) 0 =
     Some \<lparr>ws = 0, sessionId = None, isAdmin = True, ip = ''10.0.0.1''\<rparr> \<and>
   new_effects unbound_world (on_message key0 io0 0 (Some join_admin_missing) unbound_world) =
     [Send 0 (ERROR ''SESSION_NOT_FOUND'' ''Chat session not found'')]"
proof -
  let ?st = "\<lparr>ws = 0, sessionId = None, isAdmin = False, ip = ''10.0.0.1''\<rparr>"
  have c: "clients unbound_world 0 = Some ?st"
    by (simp add: unbound_world_def visitor_world_def visitor0_def)
  have m: "chatSession unbound_world sid1 = None"
    by (simp add: unbound_world_def visitor_world_def sid0_def sid1_def)
  have "handleJoinSession key0 io0 0 ?st (payload join_admin_missing) unbound_world =
     (Returned, sendError 0 ''SESSION_NOT_FOUND'' ''Chat session not found''
        (set_state 0 (?st\<lparr>isAdmin := True\<rparr>) unbound_world))"
    using join_missing_eq[OF join_admin_missing_parse, of key0 io0 unbound_world 0 ?st] key0_ok m
    by (simp add: io0_def)
  then have "on_message key0 io0 0 (Some join_admin_missing) unbound_world =
      sendError 0 ''SESSION_NOT_FOUND'' ''Chat session not found''
        (set_state 0 (?st\<lparr>isAdmin := True\<rparr>) unbound_world)"
    using on_message_join[OF c, of key0 io0 "payload join_admin_missing"]
    by (simp add: join_admin_missing_def)
  then show ?thesis using c m
    by (simp add: sendError_eq set_state_def new_effects_def unbound_world_def visitor_world_def)
qed

text \<open>
  Claim C2, amended. For a join whose payload is well-formed and which, if it claims
  admin, carries the configured key, when the lookup finds no session with that id: the
  caller (its socket open) receives exactly one envelope, the error
  \<open>SESSION_NOT_FOUND\<close>; every membership set is unchanged; the connection keeps its
  binding (or stays unbound); and its state changes in the admin flag only, which is set
  when the join claimed admin and is untouched otherwise.
\<close>

theorem join_of_missing_session:
  assumes "clients w c = Some st"
    and "WsJoinSessionSchema p = Some jp"
    and "jp_isAdmin jp = Some True \<longrightarrow> admin_key_ok k (jp_adminKey jp)"
    and "FindSession \<notin> failing i"
    and "chatSession w (jp_sessionId jp) = None"
    and "w' = on_message k i c (Some \<lparr>mtype = ''JOIN_SESSION'', payload = p\<rparr>) w"
  shows "new_effects w w' =
           (if readyState w c = WS_OPEN
            then [Send c (ERROR ''SESSION_NOT_FOUND'' ''Chat session not found'')] else []) \<and>
         sessionClients w' = sessionClients w \<and>
         bound w' c = bound w c \<and>
         clients w' =
           (clients w)(c \<mapsto> st\<lparr>isAdmin := (isAdmin st \<or> jp_isAdmin jp = Some True)\<rparr>)"
  using assms
  by (auto simp: on_message_join join_missing_eq[OF assms(2-5)] sendError_eq set_state_def
      new_effects_def bound_def fun_eq_iff)

theorem join_of_missing_session_witness:
  "WsJoinSessionSchema (payload join_admin_missing) =
     Some \<lparr>jp_sessionId = sid1, jp_isAdmin = Some True, jp_adminKey = Some key0\<rparr> \<and>
   admin_key_ok key0 (Some key0) \<and>
   chatSession unbound_world sid1 = None \<and>
   sessionClients (on_message key0 io0 0 (Some join_admin_missing) unbound_world) =
     sessionClients unbound_world \<and>
   bound (on_message key0 io0 0 (Some join_admin_missing) unbound_world) 0 = None \<and>
   error_codes (new_effects unbound_world
     (on_message key0 io0 0 (Some join_admin_missing) unbound_world)) = [''SESSION_NOT_FOUND'']"
  using join_of_missing_session
    [of unbound_world 0 "\<lparr>ws = 0, sessionId = None, isAdmin = False, ip = ''10.0.0.1''\<rparr>"
        "payload join_admin_missing"
        "\<lparr>jp_sessionId = sid1, jp_isAdmin = Some True, jp_adminKey = Some key0\<rparr>"
        key0 io0 "on_message key0 io0 0 (Some join_admin_missing) unbound_world"]
    join_admin_missing_parse key0_ok
  by (simp add: unbound_world_def visitor_world_def visitor0_def io0_def sid0_def sid1_def
      join_admin_missing_def bound_def)

text \<open>The history query on the full session.\<close>

lemma busy_history:
  "findMany sid0 (Some 20) (busy_world\<lparr>chatMessage := chatMessage busy_world @ [hey_message]\<rparr>) =
     greeting # map old_message [1..<20]"
proof -
  let ?rows = "greeting # map old_message [1..<20] @ [hey_message]"
  have same: "filter (\<lambda>m. m_sessionId m = sid0) ?rows = ?rows"
    by (simp add: greeting_def old_message_def hey_message_def)
  have times: "map m_createdAt ?rows = 0 # map int [1..<20] @ [1001]"
    by (simp add: greeting_def old_message_def hey_message_def comp_def)
  have "sorted (0 # map int [1..<20] @ [1001])"
    by (auto simp: sorted_append sorted_wrt_map)
  then have "sort_key m_createdAt ?rows = ?rows"
    using times by (simp only: sort_key_id_if_sorted)
  then have "findMany sid0 (Some 20)
      (busy_world\<lparr>chatMessage := chatMessage busy_world @ [hey_message]\<rparr>) = take 20 ?rows"
    using same by (simp add: findMany_def busy_world_def)
  then show ?thesis by simp
qed

subsection \<open>The history handed to the generator\<close>

text \<open>
  Claim C1 on the code. The history query is \<open>findMany\<close> with \<open>orderBy: createdAt asc\<close>
  and \<open>take: 20\<close>: the first twenty rows in ascending order, which are the oldest ones.
  In a session that already holds twenty messages, the visitor's new message becomes
  the twenty-first row; the generator is called with the twenty old rows, the greeting
  first, and without the message it is asked to answer.
\<close>

theorem history_window_keeps_oldest:
  "length (chatMessage busy_world) = 20 \<and>
   chatMessage (on_message key0 io0 0 (Some send_hey) busy_world) =
     chatMessage busy_world @
       [hey_message, \<lparr>m_sessionId = sid0, m_role = ASSISTANT, m_content = ''hi there'',
                      m_createdAt = 1002\<rparr>] \<and>
   filter is_generate (new_effects busy_world (on_message key0 io0 0 (Some send_hey) busy_world)) =
     [Generate ((''assistant'', ''Welcome'') # replicate 19 (''user'', ''old''))] \<and>
   (''user'', ''hey'') \<notin> set ((''assistant'', ''Welcome'') # replicate 19 (''user'', ''old''))"
proof -
  let ?w' = "on_message key0 io0 0 (Some send_hey) busy_world"
  have f: "clients busy_world 0 = Some visitor0" "chatSession busy_world sid0 = Some session0"
      "recipients busy_world sid0 None = [0]" "redis busy_world key = None" for key
    by (simp_all add: busy_world_def visitor_world_def recipients_def)
  have a: "recent_attempts busy_world (''ws-message:'' @ ip visitor0) 60 (now io0) < 30"
    using no_attempts_yet[of busy_world] f(4) by simp
  have hyps: "\<not> isAdmin visitor0" "RedisExec \<notin> failing io0" "FindSession \<notin> failing io0"
      "s_status session0 = ACTIVE" "CreateMessage \<notin> failing io0" "FindHistory \<notin> failing io0"
      "hey_message = \<lparr>m_sessionId = sid0, m_role = USER, m_content = ''hey'',
          m_createdAt = created_at io0\<rparr>"
    by (simp_all add: visitor0_def io0_def session0_def hey_message_def)
  have om: "?w' = on_message key0 io0 0
      (Some \<lparr>mtype = ''SEND_MESSAGE'', payload = payload send_hey\<rparr>) busy_world"
    by (simp add: send_hey_def)
  from visitor_send_effects[OF f(1) hyps(1) visitor0_bound send_hey_parse hyps(2) a hyps(3) f(2)
      hyps(4,5,6) om hyps(7)]
  obtain tl where tl: "new_effects busy_world ?w' =
      Broadcast sid0 (MESSAGE_RECEIVED hey_message) [0] #
      [Broadcast sid0 (TYPING_START False) [0],
       Generate (map (\<lambda>m. (role_lower (m_role m), m_content m)) (greeting # map old_message [1..<20])),
       Broadcast sid0 (TYPING_STOP False) [0]] @ tl"
     "filter (\<lambda>e. is_typing e \<or> is_generate e) tl = []"
    unfolding busy_history f(3) by blast
  have "filter is_generate tl = []"
    using tl(2) by (auto simp: filter_empty_conv)
  then have g: "filter is_generate (new_effects busy_world ?w') =
     [Generate ((''assistant'', ''Welcome'') # replicate 19 (''user'', ''old''))]"
    using tl(1) by (simp add: greeting_def old_message_def comp_def map_replicate_const)
  have h: "handleSendMessage io0 0 visitor0 (payload send_hey) busy_world =
      save_and_broadcast io0 visitor0 sid0 ''hey''
        (recorded io0 (''ws-message:'' @ ip visitor0) 60 busy_world)"
    using handleSendMessage_saves[OF visitor0_bound send_hey_parse hyps(2) a hyps(3) f(2) hyps(4)] .
  have m: "chatMessage ?w' = chatMessage busy_world @
       [hey_message, \<lparr>m_sessionId = sid0, m_role = ASSISTANT, m_content = ''hi there'',
                      m_createdAt = 1002\<rparr>]"
    unfolding om on_message_send[OF f(1)] h save_visitor[OF hyps(1,5)]
      respond_with_ai_eq[OF hyps(6)] using f(2)
    by (simp add: Let_def io0_def update_timestamp_eq hey_message_def)
  show ?thesis using g m by (simp add: busy_world_def)
qed

subsection \<open>Every event preserves the registry invariant\<close>

lemma registry_inv_membership_ok:
  assumes "registry_inv w"
  shows "membership_ok w"
proof -
  have p1: "bound w c = Some s" if "c \<in> members w s" for c s
    using assms that unfolding registry_inv_def by blast
  have p2: "sessionClients w s \<noteq> Some []" for s
    using assms unfolding registry_inv_def by blast
  have "s = s'" if "c \<in> members w s" and "c \<in> members w s'" for c s s'
    using p1[OF that(1)] p1[OF that(2)] by simp
  then show ?thesis unfolding membership_ok_def using p1 p2 by blast
qed

lemma respond_with_ai_frame:
  assumes "respond_with_ai i sid w = (out, w')"
  shows "clients w' = clients w \<and> sessionClients w' = sessionClients w \<and>
         next_socket w' = next_socket w \<and> readyState w' = readyState w \<and> redis w' = redis w \<and>
         chatSession w' = chatSession w"
proof (cases "FindHistory \<in> failing i")
  case True
  then show ?thesis using assms by (simp add: respond_with_ai_def)
next
  case False
  then show ?thesis using assms
    by (auto simp: respond_with_ai_eq Let_def split: if_splits)
qed

lemma save_and_broadcast_frame:
  assumes "save_and_broadcast i st sid content w = (out, w')"
  shows "clients w' = clients w \<and> sessionClients w' = sessionClients w \<and>
         next_socket w' = next_socket w \<and> readyState w' = readyState w \<and> redis w' = redis w"
proof (cases "CreateMessage \<in> failing i")
  case True
  then show ?thesis using assms by (simp add: save_fails)
next
  case False
  let ?w2 = "\<lambda>r c. w\<lparr>chatMessage := chatMessage w @
            [\<lparr>m_sessionId = sid, m_role = r, m_content = c, m_createdAt = created_at i\<rparr>],
          trace := trace w @
            [Broadcast sid (MESSAGE_RECEIVED
               \<lparr>m_sessionId = sid, m_role = r, m_content = c,
                m_createdAt = created_at i\<rparr>) (recipients w sid None)]\<rparr>"
  show ?thesis
  proof (cases "isAdmin st")
    case True
    then show ?thesis
      using assms False update_timestamp_frame[of i sid "?w2 ASSISTANT (''[Marin]: '' @ content)" out w']
      by (simp add: save_admin)
  next
    case na: False
    obtain o3 w3 where r: "respond_with_ai i sid (?w2 USER content) = (o3, w3)"
      by (cases "respond_with_ai i sid (?w2 USER content)")
    note rf = respond_with_ai_frame[OF r]
    show ?thesis
    proof (cases o3)
      case Thrown
      then show ?thesis using assms False na r rf by (simp add: save_visitor)
    next
      case Returned
      then have "update_timestamp i sid w3 = (out, w')"
        using assms False na r by (simp add: save_visitor)
      from update_timestamp_frame[OF this] rf show ?thesis by simp
    qed
  qed
qed

lemma handleSendMessage_frame:
  assumes "handleSendMessage i c st p w = (out, w')"
  shows "clients w' = clients w \<and> sessionClients w' = sessionClients w \<and>
         next_socket w' = next_socket w \<and> readyState w' = readyState w"
proof (cases "sessionId st")
  case None
  then show ?thesis using assms by (auto simp: handleSendMessage_def sendError_eq)
next
  case (Some sid)
  show ?thesis
  proof (cases "sid = []")
    case True
    then show ?thesis using assms Some by (auto simp: handleSendMessage_def sendError_eq)
  next
    case False
    note hb = handleSendMessage_bound[OF Some False, of i c p w]
    show ?thesis using assms unfolding hb
      by (auto simp: sendError_eq split: option.splits if_splits
          dest!: save_and_broadcast_frame)
  qed
qed

lemma members_upd [simp]:
  "members (w\<lparr>trace := t\<rparr>) = members w"
  "members (w\<lparr>clients := cl\<rparr>) = members w"
  "members (w\<lparr>readyState := rs\<rparr>) = members w"
  "members (w\<lparr>chatSession := ss\<rparr>) = members w"
  "members (w\<lparr>chatMessage := ms\<rparr>) = members w"
  "members (w\<lparr>next_socket := n\<rparr>) = members w"
  by (simp_all add: members_def fun_eq_iff)

lemma bound_upd [simp]:
  "bound (w\<lparr>trace := t\<rparr>) = bound w"
  "bound (w\<lparr>sessionClients := sc\<rparr>) = bound w"
  "bound (w\<lparr>readyState := rs\<rparr>) = bound w"
  "bound (w\<lparr>chatSession := ss\<rparr>) = bound w"
  "bound (w\<lparr>chatMessage := ms\<rparr>) = bound w"
  "bound (w\<lparr>next_socket := n\<rparr>) = bound w"
  by (simp_all add: bound_def fun_eq_iff)

lemma registry_inv_frame:
  assumes "clients w' = clients w" and "sessionClients w' = sessionClients w"
    and "next_socket w' = next_socket w"
  shows "registry_inv w' = registry_inv w"
  using assms by (simp add: registry_inv_def members_def bound_def)

lemma leaveSession_fields [simp]:
  "clients (leaveSession c sid w) = clients w"
  "next_socket (leaveSession c sid w) = next_socket w"
  "bound (leaveSession c sid w) = bound w"
  by (simp_all add: leaveSession_def bound_def fun_eq_iff Let_def split: option.splits)

lemma removeAll_empty: "removeAll c xs = [] \<longleftrightarrow> set xs \<subseteq> {c}"
  by (induction xs) auto

lemma members_leaveSession:
  "members (leaveSession c sid w) s = (if s = sid then members w sid - {c} else members w s)"
  by (auto simp: leaveSession_def members_def Let_def removeAll_empty split: option.splits)

lemma leaveSession_nonempty:
  assumes "sessionClients w s \<noteq> Some []"
  shows "sessionClients (leaveSession c sid w) s \<noteq> Some []"
  using assms by (auto simp: leaveSession_def Let_def split: option.splits)

lemma joinSet_fields [simp]:
  "clients (joinSet c sid w) = clients w"
  "next_socket (joinSet c sid w) = next_socket w"
  "bound (joinSet c sid w) = bound w"
  by (simp_all add: joinSet_def bound_def fun_eq_iff Let_def)

lemma members_joinSet:
  "members (joinSet c sid w) s = (if s = sid then insert c (members w sid) else members w s)"
  by (auto simp: joinSet_def members_def set_add_def Let_def split: option.splits)

lemma joinSet_nonempty:
  assumes "sessionClients w s \<noteq> Some []"
  shows "sessionClients (joinSet c sid w) s \<noteq> Some []"
  using assms by (auto simp: joinSet_def set_add_def Let_def split: option.splits)

lemma set_state_fields [simp]:
  "sessionClients (set_state c st w) = sessionClients w"
  "next_socket (set_state c st w) = next_socket w"
  "members (set_state c st w) = members w"
  "clients (set_state c st w) c' = (if c' = c then Some st else clients w c')"
  "bound (set_state c st w) c' = (if c' = c then sessionId st else bound w c')"
  by (simp_all add: set_state_def bound_def)

lemma registry_invI:
  assumes "\<And>c s. c \<in> members w s \<Longrightarrow> bound w c = Some s"
    and "\<And>s. sessionClients w s \<noteq> Some []"
    and "\<And>c s. bound w c = Some s \<Longrightarrow> s \<noteq> [] \<and> c \<in> members w s"
    and "\<And>c. clients w c \<noteq> None \<Longrightarrow> c < next_socket w"
  shows "registry_inv w"
  using assms unfolding registry_inv_def by blast

lemma registry_invD:
  assumes "registry_inv w"
  shows "c \<in> members w s \<Longrightarrow> bound w c = Some s"
    and "sessionClients w s \<noteq> Some []"
    and "bound w c = Some s \<Longrightarrow> s \<noteq> []"
    and "bound w c = Some s \<Longrightarrow> c \<in> members w s"
    and "clients w c \<noteq> None \<Longrightarrow> c < next_socket w"
  using assms unfolding registry_inv_def by blast+

lemma registry_inv_leave:
  assumes inv: "registry_inv w" and c: "clients w c = Some st" and b: "sessionId st = Some sid"
  shows "registry_inv (set_state c (st\<lparr>sessionId := None\<rparr>) (leaveSession c sid w))"
    (is "registry_inv ?w'")
proof (rule registry_invI)
  have bc: "bound w c = Some sid" using c b by (simp add: bound_def)
  have m: "members ?w' s = (if s = sid then members w sid - {c} else members w s)" for s
    by (simp add: members_leaveSession)
  have bd: "bound ?w' c' = (if c' = c then None else bound w c')" for c'
    by simp
  show "bound ?w' c' = Some s" if "c' \<in> members ?w' s" for c' s
  proof -
    from that have in_w: "c' \<in> members w s" and ne: "\<not> (s = sid \<and> c' = c)"
      unfolding m by (auto split: if_splits)
    from registry_invD(1)[OF inv in_w] have "bound w c' = Some s" .
    with bc ne have "c' \<noteq> c" by auto
    then show ?thesis using \<open>bound w c' = Some s\<close> unfolding bd by simp
  qed
  show "sessionClients ?w' s \<noteq> Some []" for s
    using leaveSession_nonempty[OF registry_invD(2)[OF inv]] by simp
  show "s \<noteq> [] \<and> c' \<in> members ?w' s" if "bound ?w' c' = Some s" for c' s
  proof -
    from that have ne: "c' \<noteq> c" and bw: "bound w c' = Some s"
      unfolding bd by (auto split: if_splits)
    from registry_invD(3,4)[OF inv bw] ne show ?thesis unfolding m by auto
  qed
  show "c' < next_socket ?w'" if "clients ?w' c' \<noteq> None" for c'
  proof (cases "c' = c")
    case True
    then show ?thesis using registry_invD(5)[OF inv, of c] c by simp
  next
    case False
    then show ?thesis using that registry_invD(5)[OF inv, of c'] by simp
  qed
qed

lemma registry_inv_cong:
  assumes "bound w' = bound w" and "sessionClients w' = sessionClients w"
    and "\<And>c. (clients w' c = None) = (clients w c = None)"
    and "next_socket w' = next_socket w"
  shows "registry_inv w' = registry_inv w"
  using assms by (simp add: registry_inv_def members_def)

lemma registry_inv_set_admin:
  assumes "clients w c = Some st"
  shows "registry_inv (set_state c (st\<lparr>isAdmin := True\<rparr>) w) = registry_inv w"
proof (rule registry_inv_cong)
  show "bound (set_state c (st\<lparr>isAdmin := True\<rparr>) w) = bound w"
    using assms by (auto simp: fun_eq_iff bound_def)
  show "(clients (set_state c (st\<lparr>isAdmin := True\<rparr>) w) c' = None) = (clients w c' = None)" for c'
    using assms by simp
qed simp_all

lemma registry_inv_sendError [simp]:
  "registry_inv (sendError c code msg w) = registry_inv w"
  by (rule registry_inv_frame) (simp_all add: sendError_eq)

lemma registry_inv_join:
  assumes inv: "registry_inv w" and c: "clients w c = Some st" and ne: "sid \<noteq> []"
    and w1: "w1 = (case sessionId st of None \<Rightarrow> w
                   | Some old \<Rightarrow> if old = [] then w else leaveSession c old w)"
  shows "registry_inv (joinSet c sid (set_state c (st\<lparr>sessionId := Some sid\<rparr>) w1))"
    (is "registry_inv ?w2")
proof (rule registry_invI)
  have bc: "bound w c = sessionId st" using c by (simp add: bound_def)
  have f1: "clients w1 = clients w" "next_socket w1 = next_socket w" "bound w1 = bound w"
    unfolding w1 by (simp_all split: option.splits)
  have m1: "members w1 s = (if bound w c = Some s then members w s - {c} else members w s)" for s
  proof (cases "sessionId st")
    case None
    then show ?thesis using bc w1 by simp
  next
    case (Some old)
    then have "old \<noteq> []" using registry_invD(3)[OF inv, of c old] bc by simp
    then show ?thesis using Some bc w1 by (auto simp: members_leaveSession)
  qed
  have ne1: "sessionClients w1 s \<noteq> Some []" for s
    unfolding w1 using registry_invD(2)[OF inv] leaveSession_nonempty
    by (simp split: option.splits)
  have m2: "members ?w2 s = (if s = sid then insert c (members w1 sid) else members w1 s)" for s
    by (simp add: members_joinSet)
  have b2: "bound ?w2 c' = (if c' = c then Some sid else bound w c')" for c'
    using f1 by simp
  show "bound ?w2 c' = Some s" if "c' \<in> members ?w2 s" for c' s
  proof (cases "c' = c")
    case True
    have "s = sid"
    proof (rule ccontr)
      assume "s \<noteq> sid"
      then have "c \<in> members w1 s" using that True unfolding m2 by simp
      then have "c \<in> members w s" and "bound w c \<noteq> Some s"
        unfolding m1 by (auto split: if_splits)
      then show False using registry_invD(1)[OF inv] by blast
    qed
    then show ?thesis using True unfolding b2 by simp
  next
    case False
    then have "c' \<in> members w1 s" using that unfolding m2 by (auto split: if_splits)
    then have "c' \<in> members w s" unfolding m1 by (auto split: if_splits)
    then show ?thesis using registry_invD(1)[OF inv] False unfolding b2 by simp
  qed
  show "sessionClients ?w2 s \<noteq> Some []" for s
    using joinSet_nonempty[of "set_state c (st\<lparr>sessionId := Some sid\<rparr>) w1" s c sid] ne1
    by simp
  show "s \<noteq> [] \<and> c' \<in> members ?w2 s" if "bound ?w2 c' = Some s" for c' s
  proof (cases "c' = c")
    case True
    then show ?thesis using that ne unfolding b2 m2 by simp
  next
    case False
    then have bw: "bound w c' = Some s" using that unfolding b2 by simp
    from registry_invD(3,4)[OF inv bw] False show ?thesis unfolding m2 m1 by auto
  qed
  show "c' < next_socket ?w2" if "clients ?w2 c' \<noteq> None" for c'
  proof (cases "c' = c")
    case True
    then show ?thesis using registry_invD(5)[OF inv, of c] c f1 by simp
  next
    case False
    then show ?thesis using that registry_invD(5)[OF inv, of c'] f1 by simp
  qed
qed

lemma uuid_nonempty: "is_uuid s \<Longrightarrow> s \<noteq> []"
  by (auto simp: is_uuid_def)

lemma join_parse_uuid:
  assumes "WsJoinSessionSchema p = Some jp"
  shows "is_uuid (jp_sessionId jp)"
  using assms
  by (auto simp: WsJoinSessionSchema_def split: option.splits json.splits if_splits)

lemma registry_inv_lookup_and_join:
  assumes "registry_inv w" and "clients w c = Some st" and "sid \<noteq> []"
    and "lookup_and_join i c st sid w = (out, w')"
  shows "registry_inv w'"
proof -
  define w1 where "w1 = (case sessionId st of None \<Rightarrow> w
                   | Some old \<Rightarrow> if old = [] then w else leaveSession c old w)"
  define w2 where "w2 = joinSet c sid (set_state c (st\<lparr>sessionId := Some sid\<rparr>) w1)"
  have i2: "registry_inv w2"
    unfolding w2_def using registry_inv_join[OF assms(1-3) w1_def] .
  have "w' = w \<or> w' = sendError c ''SESSION_NOT_FOUND'' ''Chat session not found'' w \<or>
        w' = w2 \<or> w' = ws_send c (SESSION_JOINED (the (chatSession w sid)) (findMany sid None w2)) w2"
    using assms(4) unfolding lookup_and_join_def w2_def w1_def
    by (auto simp: Let_def split: if_splits option.splits)
  moreover have "registry_inv (ws_send c e w2)" for e
    using i2 registry_inv_frame[of "ws_send c e w2" w2] by (simp add: ws_send_def emit_def)
  ultimately show ?thesis using assms(1) i2 by auto
qed

lemma registry_inv_handleJoinSession:
  assumes "registry_inv w" and "clients w c = Some st"
    and "handleJoinSession k i c st p w = (out, w')"
  shows "registry_inv w'"
proof (cases "WsJoinSessionSchema p")
  case None
  then show ?thesis using assms by (auto simp: handleJoinSession_def)
next
  case (Some jp)
  have ne: "jp_sessionId jp \<noteq> []"
    using uuid_nonempty[OF join_parse_uuid[OF Some]] .
  show ?thesis
  proof (cases "jp_isAdmin jp = Some True")
    case True
    show ?thesis
    proof (cases "admin_key_ok k (jp_adminKey jp)")
      case False
      then show ?thesis using assms Some True by (auto simp: handleJoinSession_def)
    next
      case ok: True
      let ?st = "st\<lparr>isAdmin := True\<rparr>"
      have "lookup_and_join i c ?st (jp_sessionId jp) (set_state c ?st w) = (out, w')"
        using assms(3) Some True ok by (simp add: handleJoinSession_def)
      moreover have "registry_inv (set_state c ?st w)"
        using assms(1) registry_inv_set_admin[OF assms(2)] by simp
      moreover have "clients (set_state c ?st w) c = Some ?st" by simp
      ultimately show ?thesis using registry_inv_lookup_and_join ne by blast
    qed
  next
    case False
    then have "lookup_and_join i c st (jp_sessionId jp) w = (out, w')"
      using assms(3) Some by (simp add: handleJoinSession_def)
    then show ?thesis using registry_inv_lookup_and_join[OF assms(1,2) ne] by blast
  qed
qed

lemma registry_inv_handleMessage:
  assumes "registry_inv w" and "handleMessage k i c m w = (out, w')"
  shows "registry_inv w'"
proof (cases "clients w c")
  case None
  then show ?thesis using assms by (simp add: handleMessage_def)
next
  case (Some st)
  consider (join) "mtype m = ''JOIN_SESSION''" | (leave) "mtype m = ''LEAVE_SESSION''"
    | (send) "mtype m = ''SEND_MESSAGE''"
    | (typing) "mtype m = ''TYPING_START'' \<or> mtype m = ''TYPING_STOP''"
    | (other) "mtype m \<noteq> ''JOIN_SESSION''" "mtype m \<noteq> ''LEAVE_SESSION''"
        "mtype m \<noteq> ''SEND_MESSAGE''" "mtype m \<noteq> ''TYPING_START''"
        "mtype m \<noteq> ''TYPING_STOP''"
    by blast
  then show ?thesis
  proof cases
    case join
    then have "handleJoinSession k i c st (payload m) w = (out, w')"
      using assms(2) Some by (simp add: handleMessage_def)
    then show ?thesis using registry_inv_handleJoinSession[OF assms(1) Some] by blast
  next
    case leave
    show ?thesis
    proof (cases "sessionId st")
      case None
      then show ?thesis using assms Some leave by (simp add: handleMessage_def)
    next
      case sid: (Some sid)
      show ?thesis
      proof (cases "sid = []")
        case True
        then show ?thesis using assms Some leave sid by (simp add: handleMessage_def)
      next
        case False
        then have "w' = set_state c (st\<lparr>sessionId := None\<rparr>) (leaveSession c sid w)"
          using assms(2) Some leave sid by (simp add: handleMessage_def)
        then show ?thesis using registry_inv_leave[OF assms(1) Some sid] by simp
      qed
    qed
  next
    case send
    then have "handleSendMessage i c st (payload m) w = (out, w')"
      using assms(2) Some by (simp add: handleMessage_def)
    from handleSendMessage_frame[OF this] show ?thesis
      using assms(1) registry_inv_frame[of w' w] by simp
  next
    case typing
    then have "w' = w \<or> (\<exists>sid e. w' = broadcastToSession sid e (Some c) w)"
      using assms(2) Some
      by (auto simp: handleMessage_def split: option.splits if_splits)
    moreover have "registry_inv (broadcastToSession sid e x w)" for sid e x
      using assms(1) registry_inv_frame[of "broadcastToSession sid e x w" w]
      by (simp add: broadcast_eq)
    ultimately show ?thesis using assms(1) by auto
  next
    case other
    then have "w' = sendError c ''UNKNOWN_MESSAGE_TYPE'' (''Unknown message type: '' @ mtype m) w"
      using assms(2) Some by (simp add: handleMessage_def)
    then show ?thesis using assms(1) by simp
  qed
qed

lemma registry_inv_on_message:
  assumes "registry_inv w"
  shows "registry_inv (on_message k i c data w)"
proof (cases data)
  case None
  then show ?thesis using assms by (simp add: on_message_def)
next
  case (Some m)
  obtain out w' where h: "handleMessage k i c m w = (out, w')"
    by (cases "handleMessage k i c m w")
  from registry_inv_handleMessage[OF assms h] show ?thesis
    using Some h by (cases out) (simp_all add: on_message_def)
qed

lemma registry_inv_on_connection:
  assumes inv: "registry_inv w"
  shows "registry_inv (on_connection forwarded remote w)" (is "registry_inv ?w'")
proof (rule registry_invI)
  let ?c = "next_socket w"
  have fresh: "clients w ?c = None"
  proof (rule ccontr)
    assume "clients w ?c \<noteq> None"
    from registry_invD(5)[OF inv this] show False by simp
  qed
  then have bf: "bound w ?c = None" by (simp add: bound_def)
  have m: "members ?w' = members w"
    by (simp add: on_connection_def Let_def members_def fun_eq_iff)
  have sc: "sessionClients ?w' = sessionClients w"
    by (simp add: on_connection_def Let_def)
  have b: "bound ?w' = bound w"
    using bf by (auto simp: on_connection_def Let_def bound_def fun_eq_iff)
  show "bound ?w' c = Some s" if "c \<in> members ?w' s" for c s
    using that registry_invD(1)[OF inv] unfolding m b by blast
  show "sessionClients ?w' s \<noteq> Some []" for s
    using registry_invD(2)[OF inv] unfolding sc by blast
  show "s \<noteq> [] \<and> c \<in> members ?w' s" if "bound ?w' c = Some s" for c s
    using that registry_invD(3,4)[OF inv] unfolding m b by blast
  show "c < next_socket ?w'" if "clients ?w' c \<noteq> None" for c
  proof (cases "c = ?c")
    case True
    then show ?thesis by (simp add: on_connection_def Let_def)
  next
    case False
    then have "clients w c \<noteq> None" using that by (simp add: on_connection_def Let_def)
    from registry_invD(5)[OF inv this] show ?thesis by (simp add: on_connection_def Let_def)
  qed
qed

lemma registry_inv_on_close:
  assumes inv: "registry_inv w"
  shows "registry_inv (on_close c w)" (is "registry_inv ?w'")
proof -
  define w0 where "w0 = w\<lparr>readyState := (readyState w)(c := WS_CLOSED)\<rparr>"
  have inv0: "registry_inv w0"
    using inv registry_inv_frame[of w0 w] by (simp add: w0_def)
  show ?thesis
  proof (cases "clients w0 c")
    case None
    then have "?w' = w0\<lparr>clients := (clients w0)(c := None)\<rparr>"
      by (simp add: on_close_def w0_def Let_def)
    moreover have "(clients w0)(c := None) = clients w0" using None by auto
    ultimately show ?thesis using inv0 registry_inv_frame[of ?w' w0] by simp
  next
    case (Some st)
    define w1 where "w1 = (case sessionId st of None \<Rightarrow> w0
        | Some sid \<Rightarrow> if sid = [] then w0 else leaveSession c sid w0)"
    have w': "?w' = w1\<lparr>clients := (clients w1)(c := None)\<rparr>"
      unfolding on_close_def w1_def w0_def Let_def using Some[unfolded w0_def] by simp
    have bc: "bound w0 c = sessionId st" using Some by (simp add: bound_def)
    have f1: "clients w1 = clients w0" "next_socket w1 = next_socket w0"
      unfolding w1_def by (simp_all split: option.splits)
    have m1: "members w1 s = (if bound w0 c = Some s then members w0 s - {c} else members w0 s)"
      for s
    proof (cases "sessionId st")
      case None
      then show ?thesis using bc w1_def by simp
    next
      case sid: (Some old)
      then have "old \<noteq> []" using registry_invD(3)[OF inv0, of c old] bc by simp
      then show ?thesis using sid bc w1_def by (auto simp: members_leaveSession)
    qed
    have ne1: "sessionClients w1 s \<noteq> Some []" for s
      unfolding w1_def using registry_invD(2)[OF inv0] leaveSession_nonempty
      by (simp split: option.splits)
    have m': "members ?w' = members w1" unfolding w' by simp
    have b': "bound ?w' c' = (if c' = c then None else bound w0 c')" for c'
      unfolding w' using f1 by (simp add: bound_def)
    show ?thesis
    proof (rule registry_invI)
      show "bound ?w' c' = Some s" if "c' \<in> members ?w' s" for c' s
      proof -
        from that have in1: "c' \<in> members w1 s" unfolding m' .
        then have in0: "c' \<in> members w0 s" unfolding m1 by (auto split: if_splits)
        from registry_invD(1)[OF inv0 in0] have bw: "bound w0 c' = Some s" .
        have "c' \<noteq> c" using in1 bw unfolding m1 by auto
        then show ?thesis using bw unfolding b' by simp
      qed
      show "sessionClients ?w' s \<noteq> Some []" for s
        using ne1 unfolding w' by simp
      show "s \<noteq> [] \<and> c' \<in> members ?w' s" if "bound ?w' c' = Some s" for c' s
      proof -
        from that have ne: "c' \<noteq> c" and bw: "bound w0 c' = Some s"
          unfolding b' by (auto split: if_splits)
        from registry_invD(3,4)[OF inv0 bw] ne show ?thesis unfolding m' m1 by auto
      qed
      show "c' < next_socket ?w'" if "clients ?w' c' \<noteq> None" for c'
      proof -
        from that have "clients w0 c' \<noteq> None"
          unfolding w' using f1 by (auto split: if_splits)
        from registry_invD(5)[OF inv0 this] show ?thesis unfolding w' using f1 by simp
      qed
    qed
  qed
qed

lemma registry_inv_step:
  assumes "registry_inv w"
  shows "registry_inv (step k w ev)"
proof (cases ev)
  case (Connection forwarded remote)
  then show ?thesis using registry_inv_on_connection[OF assms] by simp
next
  case (Message c i data)
  then show ?thesis using registry_inv_on_message[OF assms] by simp
next
  case (Close c)
  then show ?thesis using registry_inv_on_close[OF assms] by simp
next
  case (PeerClosing c)
  then show ?thesis
    using assms registry_inv_frame[of "w\<lparr>readyState := (readyState w)(c := WS_CLOSING)\<rparr>" w]
    by simp
next
  case (Storage sessions messages)
  then show ?thesis
    using assms registry_inv_frame[of "w\<lparr>chatSession := sessions, chatMessage := messages\<rparr>" w]
    by simp
qed

lemma registry_inv_init: "registry_inv init"
  by (simp add: registry_inv_def init_def members_def bound_def)

lemma registry_inv_run:
  assumes "registry_inv w"
  shows "registry_inv (run k w evs)"
  using assms unfolding run_def
  by (induction evs arbitrary: w) (simp_all add: registry_inv_step)

lemma join_binds:
  assumes "clients w c = Some st" and "WsJoinSessionSchema p = Some jp"
    and "jp_isAdmin jp = Some True \<longrightarrow> admin_key_ok k (jp_adminKey jp)"
    and "FindSession \<notin> failing i"
    and "chatSession w (jp_sessionId jp) = Some sess"
  shows "bound (on_message k i c (Some \<lparr>mtype = ''JOIN_SESSION'', payload = p\<rparr>) w) c =
           Some (jp_sessionId jp)"
proof -
  define st' where "st' = (if jp_isAdmin jp = Some True then st\<lparr>isAdmin := True\<rparr> else st)"
  define w0 where "w0 = (if jp_isAdmin jp = Some True then set_state c st' w else w)"
  have h: "handleJoinSession k i c st p w = lookup_and_join i c st' (jp_sessionId jp) w0"
    using assms(2,3) by (simp add: handleJoinSession_def st'_def w0_def)
  have cs: "chatSession w0 (jp_sessionId jp) = Some sess"
    using assms(5) by (simp add: w0_def set_state_def)
  obtain out w' where l: "lookup_and_join i c st' (jp_sessionId jp) w0 = (out, w')"
    by (cases "lookup_and_join i c st' (jp_sessionId jp) w0")
  have "bound w' c = Some (jp_sessionId jp)"
    using l assms(4) cs unfolding lookup_and_join_def
    by (auto simp: Let_def ws_send_def emit_def split: if_splits)
  then show ?thesis
    using on_message_join[OF assms(1), of k i p] h l
    by (cases out) (simp_all add: sendError_eq)
qed

lemma join0_parse:
  "WsJoinSessionSchema (payload join0) =
     Some \<lparr>jp_sessionId = sid0, jp_isAdmin = None, jp_adminKey = None\<rparr>"
  using uuid_sid0
  by (simp add: WsJoinSessionSchema_def join0_def optional_boolean_def optional_string_def)

lemma join1_parse:
  "WsJoinSessionSchema (payload join1) =
     Some \<lparr>jp_sessionId = sid1, jp_isAdmin = None, jp_adminKey = None\<rparr>"
  using uuid_sid1
  by (simp add: WsJoinSessionSchema_def join1_def optional_boolean_def optional_string_def)

lemma run_evs0:
  "run key0 init evs0 =
     visitor_world\<lparr>chatSession := [sid0 \<mapsto> session0, sid1 \<mapsto> session1],
       trace := [Send 0 (SESSION_JOINED session0 [greeting])]\<rparr>"
  using join0_parse
  by (simp add: evs0_def run_def init_def on_connection_def on_message_def
      handleMessage_def handleJoinSession_def lookup_and_join_def joinSet_def set_state_def
      set_add_def ws_send_def emit_def findMany_def client_ip_def greeting_def join0_def
      visitor_world_def visitor0_def io0_def Let_def sid0_def sid1_def)

subsection \<open>Membership in the registry when handlers are not interleaved\<close>

text \<open>
  Handlers that nothing interrupts. In every state that \<open>run\<close> reaches from the start by
  connections, inbound frames (join, leave, send, typing, anything else), closes, peers
  closing and changes of the tables, and again after one more join frame: each
  connection is in at most one session's membership set, that set is the one keyed by
  the connection's bound session id, and no membership set is empty. In particular,
  when a bound connection joins a second, existing session (well-formed payload, admin
  key right if claimed, lookup succeeding), it is afterwards bound to the second
  session, a member of its set, and no longer a member of the first session's set.
\<close>

lemma uninterrupted_registry_invariant:
  assumes "w = run k init evs"
    and "w' = step k w (Message c i (Some \<lparr>mtype = ''JOIN_SESSION'', payload = p\<rparr>))"
  shows "membership_ok w \<and> membership_ok w' \<and>
         (clients w c = Some st \<and> sessionId st = Some s1 \<and>
          WsJoinSessionSchema p = Some jp \<and> jp_sessionId jp \<noteq> s1 \<and>
          (jp_isAdmin jp = Some True \<longrightarrow> admin_key_ok k (jp_adminKey jp)) \<and>
          FindSession \<notin> failing i \<and> chatSession w (jp_sessionId jp) = Some sess \<longrightarrow>
            bound w' c = Some (jp_sessionId jp) \<and>
            c \<in> members w' (jp_sessionId jp) \<and> c \<notin> members w' s1)"
proof -
  have inv: "registry_inv w"
    unfolding assms(1) by (rule registry_inv_run[OF registry_inv_init])
  have inv': "registry_inv w'"
    unfolding assms(2) by (rule registry_inv_step[OF inv])
  have "bound w' c = Some (jp_sessionId jp) \<and>
        c \<in> members w' (jp_sessionId jp) \<and> c \<notin> members w' s1"
    if h: "clients w c = Some st" "WsJoinSessionSchema p = Some jp" "jp_sessionId jp \<noteq> s1"
      "jp_isAdmin jp = Some True \<longrightarrow> admin_key_ok k (jp_adminKey jp)"
      "FindSession \<notin> failing i" "chatSession w (jp_sessionId jp) = Some sess"
  proof -
    have b: "bound w' c = Some (jp_sessionId jp)"
      unfolding assms(2) using join_binds[OF h(1,2,4,5,6)] by simp
    have "c \<notin> members w' s1"
    proof
      assume "c \<in> members w' s1"
      from registry_invD(1)[OF inv' this] b h(3) show False by simp
    qed
    then show ?thesis using b registry_invD(4)[OF inv' b] by simp
  qed
  then show ?thesis
    using registry_inv_membership_ok[OF inv] registry_inv_membership_ok[OF inv'] by blast
qed

lemma uninterrupted_registry_invariant_witness:
  "clients (run key0 init evs0) 0 = Some visitor0 \<and>
   0 \<in> members (run key0 init evs0) sid0 \<and>
   bound (step key0 (run key0 init evs0) (Message 0 io0 (Some join1))) 0 = Some sid1 \<and>
   0 \<in> members (step key0 (run key0 init evs0) (Message 0 io0 (Some join1))) sid1 \<and>
   0 \<notin> members (step key0 (run key0 init evs0) (Message 0 io0 (Some join1))) sid0"
proof -
  have f: "clients (run key0 init evs0) 0 = Some visitor0"
      "0 \<in> members (run key0 init evs0) sid0"
      "chatSession (run key0 init evs0) sid1 = Some session1"
    unfolding run_evs0 by (simp_all add: visitor_world_def members_def sid0_def sid1_def)
  have j: "Message 0 io0 (Some join1) =
      Message 0 io0 (Some \<lparr>mtype = ''JOIN_SESSION'', payload = payload join1\<rparr>)"
    by (simp add: join1_def)
  from uninterrupted_registry_invariant
    [OF refl, of "step key0 (run key0 init evs0) (Message 0 io0 (Some join1))" key0 evs0 0 io0
        "payload join1" visitor0 sid0
        "\<lparr>jp_sessionId = sid1, jp_isAdmin = None, jp_adminKey = None\<rparr>" session1]
  show ?thesis
    using f j join1_parse by (simp add: visitor0_def io0_def sid0_def sid1_def)
qed

subsection \<open>The store tracks the attempts\<close>

lemma tracks_fresh:
  assumes "redis w (''ratelimit:'' @ key) = None"
  shows "tracks w key W []"
  using assms by (simp add: tracks_def zset_at_def zremrangebyscore_def)

lemma tracks_cong:
  assumes "redis w' = redis w"
  shows "tracks w' key W prev = tracks w key W prev"
  using assms by (simp add: tracks_def zset_at_def)

lemma tracks_count:
  assumes "tracks w key W prev" and "\<forall>s\<in>set prev. s \<le> t"
  shows "recent_attempts w key W t = length (filter (\<lambda>s. t - W * 1000 < s) prev)"
  using assms by (simp add: tracks_def recent_attempts_def)

lemma tracks_recorded:
  assumes tr: "tracks w key W prev" and le: "\<forall>s\<in>set prev. s \<le> now i"
  shows "tracks (recorded i key W w) key W (prev @ [now i])"
  unfolding tracks_def
proof (intro allI impI)
  fix t
  assume a: "\<forall>s\<in>set (prev @ [now i]). s \<le> t"
  then have nt: "now i \<le> t" by simp
  have kept: "zremrangebyscore (now i - W * 1000) (zset_at w (''ratelimit:'' @ key) (now i)) =
      filter (\<lambda>s. now i - W * 1000 < s) prev"
    using tr le unfolding tracks_def by blast
  show "zremrangebyscore (t - W * 1000) (zset_at (recorded i key W w) (''ratelimit:'' @ key) t) =
        filter (\<lambda>s. t - W * 1000 < s) (prev @ [now i])"
  proof (cases "now i + W * 1000 \<le> t")
    case True
    have "\<not> t - W * 1000 < s" if "s \<in> set (prev @ [now i])" for s
    proof -
      have "s \<le> now i" using that le by auto
      then show ?thesis using True by simp
    qed
    then have "filter (\<lambda>s. t - W * 1000 < s) (prev @ [now i]) = []"
      unfolding filter_empty_conv by blast
    then show ?thesis using True
      by (simp add: recorded_def zset_at_def zremrangebyscore_def)
  next
    case False
    have "filter (\<lambda>s. \<not> s \<le> t - W * 1000) (filter (\<lambda>s. now i - W * 1000 < s) prev) =
        filter (\<lambda>s. t - W * 1000 < s) prev"
      using nt by (auto intro!: filter_cong)
    then show ?thesis using False kept
      by (auto simp: recorded_def zset_at_def zremrangebyscore_def)
  qed
qed

lemma check_all_refines:
  assumes "tracks w key W prev" and "sorted (prev @ map now ios)"
    and "\<forall>i\<in>set ios. RedisExec \<notin> failing i"
  shows "check_all key limit W ios w = map Some (window_log limit W prev (map now ios))"
  using assms
proof (induction ios arbitrary: w prev)
  case Nil
  then show ?case by simp
next
  case (Cons i rest)
  have le: "\<forall>s\<in>set prev. s \<le> now i"
    using Cons.prems(2) by (simp add: sorted_append)
  have up: "RedisExec \<notin> failing i" using Cons.prems(3) by simp
  have tr: "tracks (recorded i key W w) key W (prev @ [now i])"
    using tracks_recorded[OF Cons.prems(1) le] .
  have so: "sorted ((prev @ [now i]) @ map now rest)"
    using Cons.prems(2) by simp
  have "check_all key limit W rest (recorded i key W w) =
      map Some (window_log limit W (prev @ [now i]) (map now rest))"
    using Cons.IH[OF tr so] Cons.prems(3) by simp
  then show ?case
    using tracks_count[OF Cons.prems(1) le] by (simp add: checkRateLimit_up[OF up])
qed

lemma window_log_burst:
  assumes "sorted (prev @ ts)"
    and "\<forall>s\<in>set (prev @ ts). \<forall>t\<in>set ts. t - W * 1000 < s"
  shows "window_log limit W prev ts = map (\<lambda>n. int (length prev + n) < limit) [0..<length ts]"
  using assms
proof (induction ts arbitrary: prev)
  case Nil
  then show ?case by simp
next
  case (Cons t ts)
  have all: "filter (\<lambda>s. t - W * 1000 < s) prev = prev"
    using Cons.prems(2) by (auto simp: filter_id_conv)
  have "window_log limit W (prev @ [t]) ts =
      map (\<lambda>n. int (length (prev @ [t]) + n) < limit) [0..<length ts]"
    using Cons.prems by (intro Cons.IH) auto
  then have tl: "window_log limit W (prev @ [t]) ts =
      map ((\<lambda>n. int (length prev + n) < limit) \<circ> Suc) [0..<length ts]"
    by (auto simp: comp_def)
  have ix: "[0..<length (t # ts)] = 0 # map Suc [0..<length ts]"
    by (simp add: upt_conv_Cons map_Suc_upt del: upt_Suc)
  show ?case
    unfolding ix using all tl by simp
qed

lemma content_parse:
  assumes "1 \<le> length content" and "length content \<le> 4000"
  shows "WsSendMessageSchema (Some (JObj [(''content'', JStr content)])) = Some content"
  using assms by (simp add: WsSendMessageSchema_def)

lemma error_codes_append [simp]: "error_codes (xs @ ys) = error_codes xs @ error_codes ys"
  by (induction xs rule: error_codes.induct) simp_all

lemma save_ok:
  assumes nf: "failing i = {}" and cs: "chatSession w sid = Some s"
  shows "\<exists>rest tl. save_and_broadcast i st sid content w =
     (Returned, w\<lparr>chatMessage := chatMessage w @ inserted_row st sid (i, content) # rest,
                   trace := trace w @ tl,
                   chatSession := (chatSession w)(sid \<mapsto> s\<lparr>s_updatedAt := updated_at i\<rparr>)\<rparr>)
     \<and> error_codes tl = []"
proof (cases "isAdmin st")
  case True
  then have "save_and_broadcast i st sid content w =
     (Returned, w\<lparr>chatMessage := chatMessage w @ inserted_row st sid (i, content) # [],
         trace := trace w @ [Broadcast sid (MESSAGE_RECEIVED (inserted_row st sid (i, content)))
            (recipients w sid None)],
         chatSession := (chatSession w)(sid \<mapsto> s\<lparr>s_updatedAt := updated_at i\<rparr>)\<rparr>)"
    using nf cs by (simp add: save_admin update_timestamp_eq inserted_row_def)
  moreover have "error_codes [Broadcast sid (MESSAGE_RECEIVED (inserted_row st sid (i, content)))
            (recipients w sid None)] = []" by simp
  ultimately show ?thesis by blast
next
  case False
  let ?row = "inserted_row st sid (i, content)"
  let ?rs = "recipients w sid None"
  let ?head = "[Broadcast sid (MESSAGE_RECEIVED ?row) ?rs]"
  let ?w2 = "w\<lparr>chatMessage := chatMessage w @ [?row], trace := trace w @ ?head\<rparr>"
  let ?typing = "[Broadcast sid (TYPING_START False) ?rs,
      Generate (map (\<lambda>m. (role_lower (m_role m), m_content m)) (findMany sid (Some 20) ?w2)),
      Broadcast sid (TYPING_STOP False) ?rs]"
  let ?reply = "\<lparr>m_sessionId = sid, m_role = ASSISTANT,
                  m_content = ai_content (getAIResponse (fetch i)),
                  m_createdAt = ai_created_at i\<rparr>"
  have sv: "save_and_broadcast i st sid content w =
     (case respond_with_ai i sid ?w2 of
        (Thrown, w3) \<Rightarrow> (Thrown, w3)
      | (Returned, w3) \<Rightarrow> update_timestamp i sid w3)"
    using False nf by (simp add: save_visitor inserted_row_def)
  have fh: "FindHistory \<notin> failing i" using nf by simp
  show ?thesis
  proof (cases "ai_content (getAIResponse (fetch i)) = []")
    case True
    then have "save_and_broadcast i st sid content w =
      (Returned, w\<lparr>chatMessage := chatMessage w @ ?row # [],
         trace := trace w @ (?head @ ?typing),
         chatSession := (chatSession w)(sid \<mapsto> s\<lparr>s_updatedAt := updated_at i\<rparr>)\<rparr>)"
      unfolding sv respond_with_ai_eq[OF fh] using nf cs
      by (simp add: Let_def update_timestamp_eq)
    moreover have "error_codes (?head @ ?typing) = []" by simp
    ultimately show ?thesis by blast
  next
    case ne: False
    then have "save_and_broadcast i st sid content w =
      (Returned, w\<lparr>chatMessage := chatMessage w @ ?row # [?reply],
         trace := trace w @ (?head @ ?typing @ [Broadcast sid (AI_RESPONSE ?reply) ?rs]),
         chatSession := (chatSession w)(sid \<mapsto> s\<lparr>s_updatedAt := updated_at i\<rparr>)\<rparr>)"
      unfolding sv respond_with_ai_eq[OF fh] using nf cs
      by (simp add: Let_def update_timestamp_eq)
    moreover have "error_codes (?head @ ?typing @ [Broadcast sid (AI_RESPONSE ?reply) ?rs]) = []"
      by simp
    ultimately show ?thesis by blast
  qed
qed

lemma send_step:
  assumes sv: "serving w c st sid"
    and nf: "failing (fst x) = {}"
    and len: "1 \<le> length (snd x)" "length (snd x) \<le> 4000"
    and tr: "tracks w (''ws-message:'' @ ip st) 60 prev"
    and le: "\<forall>s\<in>set prev. s \<le> now (fst x)"
    and w': "w' = step k w (send_event c x)"
  shows "serving w' c st sid"
    and "tracks w' (''ws-message:'' @ ip st) 60 (prev @ [now (fst x)])"
    and "length (filter (\<lambda>s. now (fst x) - 60 * 1000 < s) prev) < 30 \<Longrightarrow>
           (\<exists>rest. chatMessage w' = chatMessage w @ inserted_row st sid x # rest) \<and>
           error_codes (new_effects w w') = []"
    and "\<not> length (filter (\<lambda>s. now (fst x) - 60 * 1000 < s) prev) < 30 \<Longrightarrow>
           chatMessage w' = chatMessage w \<and>
           new_effects w w' =
             [Send c (ERROR ''RATE_LIMITED'' ''Too many messages. Please slow down.'')]"
proof -
  let ?i = "fst x" and ?key = "''ws-message:'' @ ip st"
  let ?w1 = "recorded ?i ?key 60 w"
  from sv obtain s where cl: "clients w c = Some st" and b: "sessionId st = Some sid"
    and ne: "sid \<noteq> []" and op: "readyState w c = WS_OPEN"
    and cs: "chatSession w sid = Some s" and act: "s_status s = ACTIVE"
    unfolding serving_def by blast
  have cnt: "recent_attempts w ?key 60 (now ?i) =
      length (filter (\<lambda>s. now ?i - 60 * 1000 < s) prev)"
    using tracks_count[OF tr le] .
  have tr1: "tracks ?w1 ?key 60 (prev @ [now ?i])"
    using tracks_recorded[OF tr le] .
  have om: "w' = (case handleSendMessage ?i c st (Some (JObj [(''content'', JStr (snd x))])) w of
        (Thrown, w2) \<Rightarrow> sendError c ''INVALID_MESSAGE'' ''Failed to process message'' w2
      | (Returned, w2) \<Rightarrow> w2)"
    unfolding w' send_event_def using on_message_send[OF cl] by simp
  have hb: "handleSendMessage ?i c st (Some (JObj [(''content'', JStr (snd x))])) w =
     (if \<not> recent_attempts w ?key 60 (now ?i) < 30 then
        (Returned, sendError c ''RATE_LIMITED'' ''Too many messages. Please slow down.'' ?w1)
      else save_and_broadcast ?i st sid (snd x) ?w1)"
    using handleSendMessage_bound[OF b ne, of ?i c "Some (JObj [(''content'', JStr (snd x))])" w]
      content_parse[OF len] nf cs act by simp
  from save_ok[OF nf, of ?w1 sid s st "snd x"] cs
  obtain rest tl where ok: "save_and_broadcast ?i st sid (snd x) ?w1 =
     (Returned, ?w1\<lparr>chatMessage := chatMessage ?w1 @ inserted_row st sid (?i, snd x) # rest,
                   trace := trace ?w1 @ tl,
                   chatSession := (chatSession ?w1)(sid \<mapsto> s\<lparr>s_updatedAt := updated_at ?i\<rparr>)\<rparr>)"
     and tl: "error_codes tl = []"
    by auto
  let ?w2 = "?w1\<lparr>chatMessage := chatMessage ?w1 @ inserted_row st sid (?i, snd x) # rest,
                   trace := trace ?w1 @ tl,
                   chatSession := (chatSession ?w1)(sid \<mapsto> s\<lparr>s_updatedAt := updated_at ?i\<rparr>)\<rparr>"
  have w'_eq: "w' = (if \<not> recent_attempts w ?key 60 (now ?i) < 30
      then sendError c ''RATE_LIMITED'' ''Too many messages. Please slow down.'' ?w1 else ?w2)"
    unfolding om hb using ok by simp
  have red: "redis w' = redis ?w1"
    unfolding w'_eq by (simp add: sendError_eq)
  show "serving w' c st sid"
    unfolding serving_def w'_eq using cl b ne op cs act by (simp add: sendError_eq)
  show "tracks w' ?key 60 (prev @ [now ?i])"
    using tr1 tracks_cong[OF red] by simp
  show "(\<exists>rest. chatMessage w' = chatMessage w @ inserted_row st sid x # rest) \<and>
           error_codes (new_effects w w') = []"
    if "length (filter (\<lambda>s. now ?i - 60 * 1000 < s) prev) < 30"
    using that cnt tl unfolding w'_eq by (simp add: new_effects_def)
  show "chatMessage w' = chatMessage w \<and>
           new_effects w w' =
             [Send c (ERROR ''RATE_LIMITED'' ''Too many messages. Please slow down.'')]"
    if "\<not> length (filter (\<lambda>s. now ?i - 60 * 1000 < s) prev) < 30"
    using that cnt op unfolding w'_eq by (simp add: sendError_eq new_effects_def)
qed

lemma burst_general:
  assumes "serving w c st sid"
    and "tracks w (''ws-message:'' @ ip st) 60 prev"
    and "sorted (prev @ map (\<lambda>y. now (fst y)) sends)"
    and "\<forall>s\<in>set (prev @ map (\<lambda>y. now (fst y)) sends). \<forall>t\<in>set (map (\<lambda>y. now (fst y)) sends).
           t - 60 * 1000 < s"
    and "\<forall>x\<in>set sends. failing (fst x) = {} \<and> 1 \<le> length (snd x) \<and> length (snd x) \<le> 4000"
    and "n < length sends"
    and "wn = run k w (map (send_event c) (take n sends))"
    and "wn' = step k wn (send_event c (sends ! n))"
  shows "(length prev + n < 30 \<longrightarrow>
            (\<exists>rest. chatMessage wn' = chatMessage wn @ inserted_row st sid (sends ! n) # rest) \<and>
            error_codes (new_effects wn wn') = []) \<and>
         (30 \<le> length prev + n \<longrightarrow>
            chatMessage wn' = chatMessage wn \<and>
            new_effects wn wn' =
              [Send c (ERROR ''RATE_LIMITED'' ''Too many messages. Please slow down.'')])"
  using assms
proof (induction sends arbitrary: w prev n wn wn')
  case Nil
  then show ?case by simp
next
  case (Cons x rest)
  have nf: "failing (fst x) = {}" and len: "1 \<le> length (snd x)" "length (snd x) \<le> 4000"
    using Cons.prems(5) by simp_all
  have le: "\<forall>s\<in>set prev. s \<le> now (fst x)"
    using Cons.prems(3) by (simp add: sorted_append)
  have win: "filter (\<lambda>s. now (fst x) - 60 * 1000 < s) prev = prev"
    using Cons.prems(4) by (auto simp: filter_id_conv)
  define w1 where "w1 = step k w (send_event c x)"
  note st = send_step[OF Cons.prems(1) nf len Cons.prems(2) le w1_def]
  show ?case
  proof (cases n)
    case 0
    then have "wn = w" "wn' = w1"
      using Cons.prems(7,8) by (simp_all add: run_def w1_def)
    then show ?thesis using st(3,4) win 0 by auto
  next
    case (Suc m)
    have wn: "wn = run k w1 (map (send_event c) (take m rest))"
      using Cons.prems(7) Suc by (simp add: run_def w1_def)
    have wn': "wn' = step k wn (send_event c (rest ! m))"
      using Cons.prems(8) Suc by simp
    have so: "sorted ((prev @ [now (fst x)]) @ map (\<lambda>y. now (fst y)) rest)"
      using Cons.prems(3) by simp
    have w: "\<forall>s\<in>set ((prev @ [now (fst x)]) @ map (\<lambda>y. now (fst y)) rest).
        \<forall>t\<in>set (map (\<lambda>y. now (fst y)) rest). t - 60 * 1000 < s"
      using Cons.prems(4) by auto
    have ok: "\<forall>x\<in>set rest. failing (fst x) = {} \<and> 1 \<le> length (snd x) \<and> length (snd x) \<le> 4000"
      using Cons.prems(5) by simp
    have m: "m < length rest" using Cons.prems(6) Suc by simp
    from Cons.IH[OF st(1) st(2) so w ok m wn wn'] show ?thesis
      using Suc by simp
  qed
qed

subsection \<open>The sliding-window limiter\<close>

text \<open>
  Claim C4. (1) A check whose Redis transaction succeeds stores the current attempt
  whatever its verdict, and allows exactly when the attempts it counts inside the window
  are fewer than the limit. (2) Along any run of checks of a fresh key at non-decreasing
  times, the verdicts are those of the reference \<open>window_log\<close>: the n-th check is allowed
  exactly when fewer than \<open>limit\<close> of all earlier attempts, allowed or not, are newer than
  its time minus the window. (3) Consequently, for the limit of 30 per 60 seconds that
  \<open>handleSendMessage\<close> applies: when a bound connection with a fresh key sends valid
  messages to its active session, all within one window and with no collaborator
  failing, each of the first thirty is persisted and draws no error, and every later one
  is answered by \<open>RATE_LIMITED\<close> alone: no row is inserted and nothing is broadcast.
\<close>

theorem sliding_window_rate_limit:
  "(RedisExec \<notin> failing i \<longrightarrow>
      (\<exists>r old expires.
         checkRateLimit i key limit W w = (Some r, recorded i key W w) \<and>
         allowed r = (int (recent_attempts w key W (now i)) < limit) \<and>
         redis (recorded i key W w) (''ratelimit:'' @ key) = Some (old @ [now i], expires))) \<and>
   (redis w (''ratelimit:'' @ key) = None \<and> sorted (map now ios) \<and>
    (\<forall>j\<in>set ios. RedisExec \<notin> failing j) \<longrightarrow>
      check_all key limit W ios w = map Some (window_log limit W [] (map now ios))) \<and>
   (serving v c st sid \<and> redis v (''ratelimit:'' @ ''ws-message:'' @ ip st) = None \<and>
    sorted (map (\<lambda>y. now (fst y)) sends) \<and>
    (\<forall>s\<in>set sends. \<forall>t\<in>set sends. now (fst t) - now (fst s) < 60 * 1000) \<and>
    (\<forall>x\<in>set sends. failing (fst x) = {} \<and> 1 \<le> length (snd x) \<and> length (snd x) \<le> 4000) \<and>
    n < length sends \<and>
    wn = run k v (map (send_event c) (take n sends)) \<and>
    wn' = step k wn (send_event c (sends ! n)) \<longrightarrow>
      (n < 30 \<longrightarrow>
         (\<exists>rest. chatMessage wn' = chatMessage wn @ inserted_row st sid (sends ! n) # rest) \<and>
         error_codes (new_effects wn wn') = []) \<and>
      (30 \<le> n \<longrightarrow>
         chatMessage wn' = chatMessage wn \<and>
         new_effects wn wn' =
           [Send c (ERROR ''RATE_LIMITED'' ''Too many messages. Please slow down.'')]))"
proof -
  have p1: "RedisExec \<notin> failing i \<longrightarrow>
      (\<exists>r old expires.
         checkRateLimit i key limit W w = (Some r, recorded i key W w) \<and>
         allowed r = (int (recent_attempts w key W (now i)) < limit) \<and>
         redis (recorded i key W w) (''ratelimit:'' @ key) = Some (old @ [now i], expires))"
    by (simp add: checkRateLimit_up recorded_def)
  have p2: "redis w (''ratelimit:'' @ key) = None \<and> sorted (map now ios) \<and>
    (\<forall>j\<in>set ios. RedisExec \<notin> failing j) \<longrightarrow>
      check_all key limit W ios w = map Some (window_log limit W [] (map now ios))"
  proof
    assume a: "redis w (''ratelimit:'' @ key) = None \<and> sorted (map now ios) \<and>
      (\<forall>j\<in>set ios. RedisExec \<notin> failing j)"
    then have "tracks w key W []"
      using tracks_fresh by blast
    from check_all_refines[OF this, of ios limit]
    show "check_all key limit W ios w = map Some (window_log limit W [] (map now ios))"
      using a by simp
  qed
  have p3: "serving v c st sid \<and> redis v (''ratelimit:'' @ ''ws-message:'' @ ip st) = None \<and>
    sorted (map (\<lambda>y. now (fst y)) sends) \<and>
    (\<forall>s\<in>set sends. \<forall>t\<in>set sends. now (fst t) - now (fst s) < 60 * 1000) \<and>
    (\<forall>x\<in>set sends. failing (fst x) = {} \<and> 1 \<le> length (snd x) \<and> length (snd x) \<le> 4000) \<and>
    n < length sends \<and>
    wn = run k v (map (send_event c) (take n sends)) \<and>
    wn' = step k wn (send_event c (sends ! n)) \<longrightarrow>
      (n < 30 \<longrightarrow>
         (\<exists>rest. chatMessage wn' = chatMessage wn @ inserted_row st sid (sends ! n) # rest) \<and>
         error_codes (new_effects wn wn') = []) \<and>
      (30 \<le> n \<longrightarrow>
         chatMessage wn' = chatMessage wn \<and>
         new_effects wn wn' =
           [Send c (ERROR ''RATE_LIMITED'' ''Too many messages. Please slow down.'')])"
  proof
    assume a: "serving v c st sid \<and> redis v (''ratelimit:'' @ ''ws-message:'' @ ip st) = None \<and>
      sorted (map (\<lambda>y. now (fst y)) sends) \<and>
      (\<forall>s\<in>set sends. \<forall>t\<in>set sends. now (fst t) - now (fst s) < 60 * 1000) \<and>
      (\<forall>x\<in>set sends. failing (fst x) = {} \<and> 1 \<le> length (snd x) \<and> length (snd x) \<le> 4000) \<and>
      n < length sends \<and>
      wn = run k v (map (send_event c) (take n sends)) \<and>
      wn' = step k wn (send_event c (sends ! n))"
    then have tr: "tracks v (''ws-message:'' @ ip st) 60 []"
      using tracks_fresh[of v "''ws-message:'' @ ip st" 60] by simp
    have win: "\<forall>s\<in>set ([] @ map (\<lambda>y. now (fst y)) sends).
        \<forall>t\<in>set (map (\<lambda>y. now (fst y)) sends). t - 60 * 1000 < s"
    proof (intro ballI)
      fix s t
      assume "s \<in> set ([] @ map (\<lambda>y. now (fst y)) sends)"
        and "t \<in> set (map (\<lambda>y. now (fst y)) sends)"
      then obtain xs xt where x: "xs \<in> set sends" "s = now (fst xs)"
          "xt \<in> set sends" "t = now (fst xt)"
        by auto
      from a x(1,3) have "now (fst xt) - now (fst xs) < 60 * 1000" by blast
      then show "t - 60 * 1000 < s" using x(2,4) by simp
    qed
    have so: "sorted ([] @ map (\<lambda>y. now (fst y)) sends)" using a by simp
    from a have rest: "serving v c st sid"
        "\<forall>x\<in>set sends. failing (fst x) = {} \<and> 1 \<le> length (snd x) \<and> length (snd x) \<le> 4000"
        "n < length sends" "wn = run k v (map (send_event c) (take n sends))"
        "wn' = step k wn (send_event c (sends ! n))"
      by blast+
    from burst_general[OF rest(1) tr so win rest(2-5)]
    show "(n < 30 \<longrightarrow>
           (\<exists>rest. chatMessage wn' = chatMessage wn @ inserted_row st sid (sends ! n) # rest) \<and>
           error_codes (new_effects wn wn') = []) \<and>
        (30 \<le> n \<longrightarrow>
           chatMessage wn' = chatMessage wn \<and>
           new_effects wn wn' =
             [Send c (ERROR ''RATE_LIMITED'' ''Too many messages. Please slow down.'')])"
      by simp
  qed
  show ?thesis by (rule conjI[OF p1 conjI[OF p2 p3]])
qed

theorem sliding_window_rate_limit_witness:
  "serving visitor_world 0 visitor0 sid0 \<and>
   check_all ''demo'' 2 60 spaced visitor_world = [Some True, Some True, Some False, Some True] \<and>
   chatMessage (step key0 (run key0 visitor_world (map (send_event 0) (take 30 burst)))
       (send_event 0 (burst ! 30))) =
     chatMessage (run key0 visitor_world (map (send_event 0) (take 30 burst))) \<and>
   new_effects (run key0 visitor_world (map (send_event 0) (take 30 burst)))
     (step key0 (run key0 visitor_world (map (send_event 0) (take 30 burst)))
        (send_event 0 (burst ! 30))) =
     [Send 0 (ERROR ''RATE_LIMITED'' ''Too many messages. Please slow down.'')]"
proof -
  have sv: "serving visitor_world 0 visitor0 sid0"
    by (simp add: serving_def visitor_world_def visitor0_def sid0_def session0_def)
  have fr: "redis visitor_world key = None" for key
    by (simp add: visitor_world_def)
  have b: "sorted (map (\<lambda>y. now (fst y)) burst)"
      "\<forall>s\<in>set burst. \<forall>t\<in>set burst. now (fst t) - now (fst s) < 60 * 1000"
      "\<forall>x\<in>set burst. failing (fst x) = {} \<and> 1 \<le> length (snd x) \<and> length (snd x) \<le> 4000"
      "30 < length burst"
    by (simp_all add: burst_def io0_def)
  have s: "sorted (map now spaced)" "\<forall>j\<in>set spaced. RedisExec \<notin> failing j"
      "window_log 2 60 [] (map now spaced) = [True, True, False, True]"
    by (simp_all add: spaced_def io0_def)
  from sliding_window_rate_limit
    [of io0 "''demo''" 2 60 visitor_world spaced visitor_world 0 visitor0 sid0 burst 30
        "run key0 visitor_world (map (send_event 0) (take 30 burst))" key0
        "step key0 (run key0 visitor_world (map (send_event 0) (take 30 burst)))
           (send_event 0 (burst ! 30))"]
  show ?thesis using sv fr b s by simp
qed

subsection \<open>Suspended handlers\<close>

text \<open>
  Resumed at once, the two halves of a join and of a send do what the uninterrupted
  handler does.
\<close>

lemma save_until_generator_done:
  assumes "save_until_generator i st sid content w = (Some out, w')"
  shows "save_and_broadcast i st sid content w = (out, w')"
  using assms
  by (auto simp: save_until_generator_def save_and_broadcast_def respond_with_ai_def Let_def
      split: if_splits prod.splits)

lemma save_until_generator_suspended:
  assumes "save_until_generator i st sid content w = (None, w')" and "sessionId st' = Some sid"
  shows "save_and_broadcast i st sid content w = after_generator i st' w'"
  using assms
  by (auto simp: save_until_generator_def save_and_broadcast_def respond_with_ai_def
      after_generator_def broadcast_to_def Let_def split: if_splits prod.splits)

lemma send_begin_done:
  assumes "send_begin i c st body w = (Some out, w')"
  shows "handleSendMessage i c st body w = (out, w')"
  using assms
  by (auto simp: send_begin_def handleSendMessage_def
      split: option.splits if_splits prod.splits dest: save_until_generator_done)

lemma send_begin_suspended:
  assumes "send_begin i c st body w = (None, w')"
  shows "handleSendMessage i c st body w = after_generator i st w' \<and> clients w' = clients w"
proof -
  from assms obtain sid content w1 where
      b: "sessionId st = Some sid" "sid \<noteq> []"
      and sv: "save_until_generator i st sid content w1 = (None, w')"
      and h: "handleSendMessage i c st body w = save_and_broadcast i st sid content w1"
      and c1: "clients w1 = clients w"
    by (auto simp: send_begin_def handleSendMessage_def checkRateLimit_def Let_def
        split: option.splits if_splits prod.splits)
  have "clients w' = clients w1"
    using sv
    by (auto simp: save_until_generator_def create_message_def broadcast_eq emit_def Let_def
        split: if_splits prod.splits)
  then show ?thesis
    using h save_until_generator_suspended[OF sv b(1)] c1 by simp
qed

lemma drop_last_waiting [simp]:
  "take (length xs) (xs @ [x]) @ drop (Suc (length xs)) (xs @ [x]) = xs"
  by simp

lemma uninterrupted_join:
  assumes "clients (srv s) c = Some st"
  shows "srv (irun k s [Arrive (Message c i (Some \<lparr>mtype = ''JOIN_SESSION'', payload = p\<rparr>)),
                        Resume (length (waiting s)) i]) =
         on_message k i c (Some \<lparr>mtype = ''JOIN_SESSION'', payload = p\<rparr>) (srv s)"
proof (cases "join_begin k c st p (srv s)")
  case (Pair susp w)
  show ?thesis
  proof (cases susp)
    case None
    then show ?thesis using Pair assms
      by (auto simp: irun_def on_message_join handleJoinSession_def join_begin_def
          split: option.splits if_splits)
  next
    case (Some sid)
    then obtain st' where st': "clients w c = Some st'"
        and h: "handleJoinSession k i c st p (srv s) = lookup_and_join i c st' sid w"
      using Pair assms
      by (auto simp: handleJoinSession_def join_begin_def set_state_def
          split: option.splits if_splits)
    let ?s1 = "s\<lparr>srv := w, waiting := waiting s\<rparr>"
    have so: "state_object ?s1 c = Some st'"
      using st' by (simp add: state_object_def)
    have "srv (join_resume i c sid ?s1) =
        (case lookup_and_join i c st' sid w of
           (Thrown, w') \<Rightarrow> sendError c ''INVALID_MESSAGE'' ''Failed to process message'' w'
         | (Returned, w') \<Rightarrow> w')"
      using so st'
      by (auto simp: join_resume_def lookup_and_join_def write_state_def Let_def set_state_def
          joinSet_def leaveSession_def split: option.splits)
    then show ?thesis
      using Pair Some assms h
      by (simp add: irun_def on_message_join)
  qed
qed

lemma uninterrupted_send:
  assumes "clients (srv s) c = Some st"
  shows "srv (irun k s [Arrive (Message c i (Some \<lparr>mtype = ''SEND_MESSAGE'', payload = p\<rparr>)),
                        Resume (length (waiting s)) i]) =
         on_message k i c (Some \<lparr>mtype = ''SEND_MESSAGE'', payload = p\<rparr>) (srv s)"
proof (cases "send_begin i c st p (srv s)")
  case (Pair susp w)
  show ?thesis
  proof (cases susp)
    case (Some out)
    from send_begin_done[OF Pair[unfolded Some]] show ?thesis
      using Pair Some assms
      by (cases out) (simp_all add: irun_def on_message_send)
  next
    case None
    from send_begin_suspended[OF Pair[unfolded None]]
    have h: "handleSendMessage i c st p (srv s) = after_generator i st w"
      and cl: "clients w c = Some st"
      using assms by simp_all
    let ?s1 = "s\<lparr>srv := w, waiting := waiting s\<rparr>"
    have "state_object ?s1 c = Some st" using cl by (simp add: state_object_def)
    then have "srv (send_resume i c ?s1) =
        (case after_generator i st w of
           (Thrown, w') \<Rightarrow> sendError c ''INVALID_MESSAGE'' ''Failed to process message'' w'
         | (Returned, w') \<Rightarrow> w')"
      by (auto simp: send_resume_def split: prod.splits outcome.splits)
    then show ?thesis
      using Pair None assms h by (simp add: irun_def on_message_send)
  qed
qed

subsection \<open>A socket that closes while its join awaits the lookup\<close>

text \<open>The state after the run \<open>close_during_lookup\<close>, and what it breaks.\<close>

lemma close_during_lookup_state:
  "irun key0 boot close_during_lookup =
     \<lparr>srv = \<lparr>clients = (\<lambda>c. None), sessionClients = [sid0 \<mapsto> [0]],
             readyState = (\<lambda>c. WS_CLOSED), next_socket = 1,
             chatSession = [sid0 \<mapsto> session0], chatMessage = [greeting],
             redis = (\<lambda>k. None), trace = []\<rparr>,
      held = [0 \<mapsto> \<lparr>ws = 0, sessionId = Some sid0, isAdmin = False, ip = ''10.0.0.1''\<rparr>],
      waiting = []\<rparr>"
proof -
  let ?st = "\<lparr>ws = 0, sessionId = None, isAdmin = False, ip = ''10.0.0.1''\<rparr>"
  let ?w1 = "\<lparr>clients = [0 \<mapsto> ?st], sessionClients = (\<lambda>s. None),
      readyState = (\<lambda>c. WS_CLOSED)(0 := WS_OPEN), next_socket = 1,
      chatSession = [sid0 \<mapsto> session0], chatMessage = [greeting],
      redis = (\<lambda>k. None), trace = []\<rparr>"
  have s2: "irun key0 boot
      [Arrive (Storage [sid0 \<mapsto> session0] [greeting]),
       Arrive (Connection None (Some ''10.0.0.1''))] =
      \<lparr>srv = ?w1, held = (\<lambda>c. None), waiting = []\<rparr>"
    by (simp add: irun_def boot_def init_def on_connection_def client_ip_def Let_def)
  have s3: "istep key0 \<lparr>srv = ?w1, held = (\<lambda>c. None), waiting = []\<rparr>
      (Arrive (Message 0 io0 (Some join0))) =
      \<lparr>srv = ?w1, held = (\<lambda>c. None), waiting = [JoinLookup 0 sid0]\<rparr>"
    using join0_parse by (simp add: join_begin_def join0_def)
  have s4: "istep key0 \<lparr>srv = ?w1, held = (\<lambda>c. None), waiting = [JoinLookup 0 sid0]\<rparr>
      (Arrive (Close 0)) =
      \<lparr>srv = ?w1\<lparr>clients := (\<lambda>c. None), readyState := (\<lambda>c. WS_CLOSED)\<rparr>,
       held = [0 \<mapsto> ?st], waiting = [JoinLookup 0 sid0]\<rparr>"
    by (simp add: on_close_def Let_def fun_eq_iff)
  have s5: "istep key0
      \<lparr>srv = ?w1\<lparr>clients := (\<lambda>c. None), readyState := (\<lambda>c. WS_CLOSED)\<rparr>,
       held = [0 \<mapsto> ?st], waiting = [JoinLookup 0 sid0]\<rparr> (Resume 0 io0) =
      \<lparr>srv = ?w1\<lparr>clients := (\<lambda>c. None), readyState := (\<lambda>c. WS_CLOSED),
               sessionClients := [sid0 \<mapsto> [0]]\<rparr>,
       held = [0 \<mapsto> ?st\<lparr>sessionId := Some sid0\<rparr>], waiting = []\<rparr>"
    by (simp add: join_resume_def state_object_def write_state_def joinSet_def set_add_def
        ws_send_def io0_def Let_def)
  show ?thesis
    using s2 s3 s4 s5 unfolding close_during_lookup_def irun_def by simp
qed

lemma closed_member_breaks_membership:
  "\<not> membership_ok (srv (irun key0 boot close_during_lookup))"
proof
  assume "membership_ok (srv (irun key0 boot close_during_lookup))"
  then have "\<forall>c s. c \<in> members (srv (irun key0 boot close_during_lookup)) s \<longrightarrow>
      bound (srv (irun key0 boot close_during_lookup)) c = Some s"
    unfolding membership_ok_def by blast
  then have "0 \<in> members (srv (irun key0 boot close_during_lookup)) sid0 \<longrightarrow>
      bound (srv (irun key0 boot close_during_lookup)) 0 = Some sid0"
    by blast
  then show False
    unfolding close_during_lookup_state by (simp add: members_def bound_def)
qed

text \<open>
  Claim C7 on the code. A client connects and sends a join for the existing session
  \<open>sid0\<close>; its socket closes while the handler awaits \<open>findUnique\<close>. The \<open>close\<close> listener
  finds no bound session, removes nothing and deletes the ClientState. The lookup then
  answers and the handler goes on with the objects it holds: it adds the socket to the
  set of \<open>sid0\<close>. Afterwards nothing is suspended, the socket is closed and has no entry
  in \<open>clients\<close>, and it is a member of the set of \<open>sid0\<close>, which no later event can
  remove it from: a member with no ConnectionState and no bound session id.
\<close>

theorem closed_socket_stays_registered:
  "waiting (irun key0 boot close_during_lookup) = [] \<and>
   clients (srv (irun key0 boot close_during_lookup)) 0 = None \<and>
   readyState (srv (irun key0 boot close_during_lookup)) 0 = WS_CLOSED \<and>
   sessionClients (srv (irun key0 boot close_during_lookup)) sid0 = Some [0] \<and>
   0 \<in> members (srv (irun key0 boot close_during_lookup)) sid0 \<and>
   bound (srv (irun key0 boot close_during_lookup)) 0 = None"
  unfolding close_during_lookup_state by (simp add: members_def bound_def)

subsection \<open>A sender that leaves while the generator works\<close>

text \<open>Evaluating the example.\<close>

lemma pair_world_fields:
  "clients pair_world 0 = Some visitor0"
  "readyState pair_world 0 = WS_OPEN"
  "chatSession pair_world sid0 = Some session0"
  "chatMessage pair_world = [greeting]"
  "trace pair_world = []"
  "redis pair_world key = None"
  "recipients pair_world sid0 None = [0, 1]"
  "sessionClients pair_world sid0 = Some [0, 1]"
  by (simp_all add: pair_world_def visitor_world_def recipients_def)

lemma pair_history:
  "findMany sid0 (Some 20) (pair_world\<lparr>chatMessage := [greeting, hey_message]\<rparr>) =
     [greeting, hey_message]"
  by (simp add: findMany_def greeting_def hey_message_def)

text \<open>
  Claim C3 on the code. The visitor on socket 0 and an admin on socket 1 are members of
  \<open>sid0\<close>. The visitor sends a message: it is stored and broadcast, \<open>TYPING_START\<close> goes to
  both sockets and the generator is called. While the call is pending the visitor's
  \<open>LEAVE_SESSION\<close> is handled, which sets \<open>state.sessionId\<close> to \<open>null\<close>. When the generator
  answers, the handler broadcasts \<open>TYPING_STOP\<close> to \<open>state.sessionId\<close> as it is now: to
  nobody. The whole trace holds one \<open>TYPING_START\<close> for \<open>sid0\<close> and no \<open>TYPING_STOP\<close> at all;
  the handler ends in the listener's \<open>INVALID_MESSAGE\<close>, and socket 1 is left with the
  typing indicator.
\<close>

theorem typing_stop_lost_on_leave:
  "recipients pair_world sid0 None = [0, 1] \<and>
   trace (srv (irun key0 pair_server leave_during_generator)) =
     [Broadcast sid0 (MESSAGE_RECEIVED hey_message) [0, 1],
      Broadcast sid0 (TYPING_START False) [0, 1],
      Generate [(''assistant'', ''Welcome''), (''user'', ''hey'')],
      Send 0 (ERROR ''INVALID_MESSAGE'' ''Failed to process message'')] \<and>
   filter (\<lambda>e. is_typing e \<or> is_generate e)
     (trace (srv (irun key0 pair_server leave_during_generator))) =
     [Broadcast sid0 (TYPING_START False) [0, 1],
      Generate [(''assistant'', ''Welcome''), (''user'', ''hey'')]] \<and>
   waiting (irun key0 pair_server leave_during_generator) = [] \<and>
   sessionClients (srv (irun key0 pair_server leave_during_generator)) sid0 = Some [1]"
proof -
  let ?key = "''ws-message:'' @ ip visitor0"
  let ?w1 = "recorded io0 ?key 60 pair_world"
  let ?w2 = "?w1\<lparr>chatMessage := [greeting, hey_message],
      trace := [Broadcast sid0 (MESSAGE_RECEIVED hey_message) [0, 1],
                Broadcast sid0 (TYPING_START False) [0, 1],
                Generate [(''assistant'', ''Welcome''), (''user'', ''hey'')]]\<rparr>"
  have sv: "save_until_generator io0 visitor0 sid0 ''hey'' ?w1 = (None, ?w2)"
    using pair_history
    by (simp add: save_until_generator_def create_message_def broadcast_eq emit_def Let_def
        pair_world_fields visitor0_def io0_def hey_message_def findMany_def greeting_def)
  have sb: "send_begin io0 0 visitor0 (payload send_hey) pair_world = (None, ?w2)"
    using send_hey_parse no_attempts_yet[of pair_world ?key 60 "now io0"] sv
    by (simp add: send_begin_def visitor0_bound checkRateLimit_up pair_world_fields
        io0_def session0_def)
  have a1: "istep key0 pair_server (Arrive (Message 0 io0 (Some send_hey))) =
      \<lparr>srv = ?w2, held = (\<lambda>c. None), waiting = [GeneratorCall 0]\<rparr>"
    using sb by (simp add: pair_server_def pair_world_fields send_hey_def)
  let ?w3 = "?w2\<lparr>clients := (clients ?w2)(0 \<mapsto> visitor0\<lparr>sessionId := None\<rparr>),
      sessionClients := (sessionClients ?w2)(sid0 \<mapsto> [1])\<rparr>"
  have a2: "istep key0 \<lparr>srv = ?w2, held = (\<lambda>c. None), waiting = [GeneratorCall 0]\<rparr>
      (Arrive (Message 0 io0 (Some leave_frame))) =
      \<lparr>srv = ?w3, held = (\<lambda>c. None), waiting = [GeneratorCall 0]\<rparr>"
    by (simp add: leave_frame_def on_message_def handleMessage_def pair_world_fields
        visitor0_bound leaveSession_def set_state_def Let_def)
  have ag: "after_generator io0 (visitor0\<lparr>sessionId := None\<rparr>) ?w3 = (Thrown, ?w3)"
    by (simp add: after_generator_def broadcast_to_def Let_def)
  have a3: "istep key0 \<lparr>srv = ?w3, held = (\<lambda>c. None), waiting = [GeneratorCall 0]\<rparr>
      (Resume 0 io0) =
      \<lparr>srv = sendError 0 ''INVALID_MESSAGE'' ''Failed to process message'' ?w3,
       held = (\<lambda>c. None), waiting = []\<rparr>"
    using ag by (simp add: send_resume_def state_object_def)
  have "irun key0 pair_server leave_during_generator =
      \<lparr>srv = sendError 0 ''INVALID_MESSAGE'' ''Failed to process message'' ?w3,
       held = (\<lambda>c. None), waiting = []\<rparr>"
    unfolding leave_during_generator_def irun_def using a1 a2 a3 by simp
  then show ?thesis
    by (simp add: sendError_eq pair_world_fields)
qed

end
